theory Spec2Isabelle
  imports Main
begin

section \<open>Python text primitives used by the ledger\<close>

text \<open>
  The application keeps its data in two text files and reads them with
  \<^verbatim>\<open>ligne.strip().split(",")\<close>, \<^verbatim>\<open>int(...)\<close> and \<^verbatim>\<open>str(...)\<close>. A Python string is
  modelled as a \<^typ>\<open>string\<close>; characters are the code points below 256.
\<close>

definition LF :: char where
  "LF = CHR 0x0A"

definition CR :: char where
  "CR = CHR 0x0D"

definition virgule :: char where
  "virgule = CHR '',''"

text \<open>\<^verbatim>\<open>str.isspace\<close> on one character, for the code points below 256.\<close>

definition espace :: "char \<Rightarrow> bool" where
  "espace c = (c \<in> set [CHR 0x09, CHR 0x0A, CHR 0x0B, CHR 0x0C, CHR 0x0D,
                         CHR 0x1C, CHR 0x1D, CHR 0x1E, CHR 0x1F, CHR 0x20,
                         CHR 0x85, CHR 0xA0])"

text \<open>\<^verbatim>\<open>s.strip()\<close>: whitespace removed at both ends.\<close>

definition strip :: "string \<Rightarrow> string" where
  "strip s = rev (dropWhile espace (rev (dropWhile espace s)))"

text \<open>\<^verbatim>\<open>s.split(",")\<close>: the fields between commas; never an empty list.\<close>

fun split_virgule :: "string \<Rightarrow> string list" where
  "split_virgule [] = [[]]"
| "split_virgule (c # cs) =
     (if c = virgule then [] # split_virgule cs
      else (case split_virgule cs of
              [] \<Rightarrow> [[c]]
            | w # ws \<Rightarrow> (c # w) # ws))"

text \<open>
  Decimal digits, \<^verbatim>\<open>str(n)\<close> and \<^verbatim>\<open>int(s)\<close> for base ten. \<open>valeur_chiffre\<close> is
  applied to digits only and \<open>chiffre_de\<close> to numbers below ten.
\<close>

definition chiffre :: "char \<Rightarrow> bool" where
  "chiffre c = (c \<in> set ''0123456789'')"

fun rang :: "char \<Rightarrow> string \<Rightarrow> nat" where
  "rang c [] = 0"
| "rang c (d # ds) = (if c = d then 0 else 1 + rang c ds)"

definition valeur_chiffre :: "char \<Rightarrow> nat" where
  "valeur_chiffre c = rang c ''0123456789''"

definition chiffre_de :: "nat \<Rightarrow> char" where
  "chiffre_de d = ''0123456789'' ! d"

function chiffres_de :: "nat \<Rightarrow> string" where
  "chiffres_de n = (if n < 10 then [chiffre_de n]
                    else chiffres_de (n div 10) @ [chiffre_de (n mod 10)])"
  by pat_completeness auto
termination
  by (relation "measure (\<lambda>n. n)") auto

declare chiffres_de.simps [simp del]

definition decimal :: "int \<Rightarrow> string" where
  "decimal i = (if i < 0 then CHR ''-'' # chiffres_de (nat (- i)) else chiffres_de (nat i))"

text \<open>
  The interpreter refuses to convert between text and an integer of more than
  \<^verbatim>\<open>sys.int_max_str_digits\<close> decimal digits (4300 unless the interpreter is configured
  otherwise): \<^verbatim>\<open>str(n)\<close>, and so an integer inside an f-string, raises \<^verbatim>\<open>ValueError\<close>
  for such an \<open>n\<close>, and \<^verbatim>\<open>int(s)\<close> for a text with that many digits. \<open>None\<close> stands for
  that exception.
\<close>

definition MAX_STR_DIGITS :: nat where
  "MAX_STR_DIGITS = 4300"

definition imprimable :: "int \<Rightarrow> bool" where
  "imprimable i = (length (chiffres_de (nat \<bar>i\<bar>)) \<le> MAX_STR_DIGITS)"

definition py_str :: "int \<Rightarrow> string option" where
  "py_str i = (if imprimable i then Some (decimal i) else None)"

text \<open>
  The digits of an integer literal after its first digit: further digits, each
  optionally preceded by one underscore (\<^verbatim>\<open>int("1_000") == 1000\<close>).
\<close>

fun valeur_chiffres :: "nat \<Rightarrow> string \<Rightarrow> nat option" where
  "valeur_chiffres acc [] = Some acc"
| "valeur_chiffres acc [c] =
     (if chiffre c then Some (10 * acc + valeur_chiffre c) else None)"
| "valeur_chiffres acc (c # d # ds) =
     (if chiffre c then valeur_chiffres (10 * acc + valeur_chiffre c) (d # ds)
      else if c = CHR ''_'' \<and> chiffre d then valeur_chiffres (10 * acc + valeur_chiffre d) ds
      else None)"

definition entier_litteral :: "string \<Rightarrow> nat option" where
  "entier_litteral s =
     (case s of
        [] \<Rightarrow> None
      | c # cs \<Rightarrow>
          if chiffre c \<and> length (filter chiffre s) \<le> MAX_STR_DIGITS
          then valeur_chiffres (valeur_chiffre c) cs else None)"

text \<open>
  \<^verbatim>\<open>int(s)\<close>: whitespace around the literal is skipped, one sign is allowed; \<open>None\<close>
  stands for the \<^verbatim>\<open>ValueError\<close> of a text that is no integer literal. The whitespace
  \<^verbatim>\<open>int\<close> skips is narrower than that of \<^verbatim>\<open>strip\<close>: tab, line feed, vertical tab, form
  feed, carriage return and space, and the two spaces above ASCII (U+0085, U+00A0),
  which it turns into a space first; the separators U+001C to U+001F are not skipped and
  make it raise.
\<close>

definition espace_entier :: "char \<Rightarrow> bool" where
  "espace_entier c = (c \<in> set [CHR 0x09, CHR 0x0A, CHR 0x0B, CHR 0x0C, CHR 0x0D, CHR 0x20,
                                CHR 0x85, CHR 0xA0])"

definition py_int :: "string \<Rightarrow> int option" where
  "py_int s =
     (case rev (dropWhile espace_entier (rev (dropWhile espace_entier s))) of
        [] \<Rightarrow> None
      | c # cs \<Rightarrow>
          if c = CHR ''-'' then map_option (\<lambda>n. - int n) (entier_litteral cs)
          else if c = CHR ''+'' then map_option int (entier_litteral cs)
          else map_option int (entier_litteral (c # cs)))"

section \<open>Configuration (configuration.py)\<close>

text \<open>An upper bound of a fee tier is an integer or \<^verbatim>\<open>math.inf\<close>.\<close>

datatype borne = Finie int | Infinie

fun inferieur_ou_egal :: "int \<Rightarrow> borne \<Rightarrow> bool" where
  "inferieur_ou_egal m (Finie b) = (m \<le> b)"
| "inferieur_ou_egal m Infinie = True"

record tranche =
  min_tranche :: int
  max_tranche :: borne
  frais_tranche :: int

definition SOLDE_INITIAL :: int where
  "SOLDE_INITIAL = 1000 * 100"

definition NOM_UTILISATEUR_ADMIN :: string where
  "NOM_UTILISATEUR_ADMIN = ''ift-1004-union''"

definition FRAIS_TRANSACTIONS :: "tranche list" where
  "FRAIS_TRANSACTIONS =
     [\<lparr>min_tranche = 0, max_tranche = Finie 100, frais_tranche = 5\<rparr>,
      \<lparr>min_tranche = 101, max_tranche = Finie 500, frais_tranche = 10\<rparr>,
      \<lparr>min_tranche = 501, max_tranche = Finie 1000, frais_tranche = 15\<rparr>,
      \<lparr>min_tranche = 1001, max_tranche = Finie 5000, frais_tranche = 20\<rparr>,
      \<lparr>min_tranche = 5001, max_tranche = Infinie, frais_tranche = 25\<rparr>]"

section \<open>Fee schedule (transactions.py, calculer_frais)\<close>

text \<open>
  \<^verbatim>\<open>int(montant * tranche["frais"] / 100)\<close> divides two integers and truncates the
  quotient towards zero. The quotient is taken exactly here; the interpreter rounds it
  to a double first, which gives the same integer as long as the quotient stays below
  \<open>2 ^ 47\<close>.
\<close>

definition tronquer_quotient :: "int \<Rightarrow> int \<Rightarrow> int" where
  "tronquer_quotient a b = (if 0 \<le> a then a div b else - ((- a) div b))"

definition dans_tranche :: "tranche \<Rightarrow> int \<Rightarrow> bool" where
  "dans_tranche t montant =
     (min_tranche t \<le> montant \<and> inferieur_ou_egal montant (max_tranche t))"

fun calculer_frais_selon :: "tranche list \<Rightarrow> int \<Rightarrow> int" where
  "calculer_frais_selon [] montant = 0"
| "calculer_frais_selon (t # ts) montant =
     (if dans_tranche t montant then tronquer_quotient (montant * frais_tranche t) 100
      else calculer_frais_selon ts montant)"

definition calculer_frais :: "int \<Rightarrow> int" where
  "calculer_frais montant = calculer_frais_selon FRAIS_TRANSACTIONS montant"

section \<open>The two files and the clock\<close>

text \<open>
  A file is the list of its lines, each without its line terminator; the program starts
  from two empty files and every text it writes ends with a line feed. Text mode reads
  \<^verbatim>\<open>\r\<close>, \<^verbatim>\<open>\n\<close> and \<^verbatim>\<open>\r\n\<close> as line ends, so a written text holding one of them
  comes back as several lines. Since a line feed is whitespace, stripping a line with or
  without its terminator gives the same text.
\<close>

type_synonym fichier = "string list"

fun lignes_texte :: "string \<Rightarrow> string \<Rightarrow> string list" where
  "lignes_texte cur [] = (if cur = [] then [] else [cur])"
| "lignes_texte cur [c] =
     (if c = LF \<or> c = CR then [cur] else [cur @ [c]])"
| "lignes_texte cur (c # d # ds) =
     (if c = LF then cur # lignes_texte [] (d # ds)
      else if c = CR then
        (if d = LF then cur # lignes_texte [] ds else cur # lignes_texte [] (d # ds))
      else lignes_texte (cur @ [c]) (d # ds))"

text \<open>\<^verbatim>\<open>open(f, "a").write(ligne + "\n")\<close>.\<close>

definition ajouter_ligne :: "string \<Rightarrow> fichier \<Rightarrow> fichier" where
  "ajouter_ligne ligne f = f @ lignes_texte [] (ligne @ [LF])"

record etat =
  utilisateurs :: fichier
  transactions :: fichier

definition etat_vide :: etat where
  "etat_vide = \<lparr>utilisateurs = [], transactions = []\<rparr>"

datatype erreur = ValueError | OverflowError | TypeError

text \<open>
  \<^verbatim>\<open>utilisateur, mot_de_passe, solde = ligne.strip().split(",")\<close> raises
  \<^verbatim>\<open>ValueError\<close> unless there are exactly three fields; \<open>None\<close> stands for it. The
  transaction file is read the same way with five fields.
\<close>

definition trois_champs :: "string \<Rightarrow> (string \<times> string \<times> string) option" where
  "trois_champs ligne =
     (case split_virgule (strip ligne) of
        [u, p, s] \<Rightarrow> Some (u, p, s)
      | _ \<Rightarrow> None)"

definition cinq_champs ::
  "string \<Rightarrow> (string \<times> string \<times> string \<times> string \<times> string) option" where
  "cinq_champs ligne =
     (case split_virgule (strip ligne) of
        [e, d, m, f, dh] \<Rightarrow> Some (e, d, m, f, dh)
      | _ \<Rightarrow> None)"

definition joindre3 :: "string \<Rightarrow> string \<Rightarrow> string \<Rightarrow> string" where
  "joindre3 u p s = u @ virgule # p @ virgule # s"

definition joindre5 :: "string \<Rightarrow> string \<Rightarrow> string \<Rightarrow> string \<Rightarrow> string \<Rightarrow> string" where
  "joindre5 e d m f dh = e @ virgule # d @ virgule # m @ virgule # f @ virgule # dh"

text \<open>
  \<^verbatim>\<open>datetime.now().strftime("%Y-%m-%d %H:%M:%S")\<close>. The clock is an input; its fields
  are those of a \<^verbatim>\<open>datetime\<close> (a year of four digits, the others below 100).
\<close>

record instant =
  annee :: nat
  mois :: nat
  jour :: nat
  heure :: nat
  minute :: nat
  seconde :: nat

definition deux_chiffres :: "nat \<Rightarrow> string" where
  "deux_chiffres n = [chiffre_de (n div 10 mod 10), chiffre_de (n mod 10)]"

definition strftime :: "instant \<Rightarrow> string" where
  "strftime t =
     chiffres_de (annee t) @ CHR ''-'' # deux_chiffres (mois t) @ CHR ''-'' #
     deux_chiffres (jour t) @ CHR '' '' # deux_chiffres (heure t) @ CHR '':'' #
     deux_chiffres (minute t) @ CHR '':'' # deux_chiffres (seconde t)"

section \<open>Utilities (utilitaires.py)\<close>

text \<open>
  \<^verbatim>\<open>hashlib.sha256(m.encode()).hexdigest()\<close>: the digest function is a parameter
  \<open>sha\<close>, giving the digest as a number; \<open>hexdigest\<close> writes it as 64 hexadecimal
  digits.
\<close>

fun chiffres_hex :: "nat \<Rightarrow> nat \<Rightarrow> string" where
  "chiffres_hex 0 d = []"
| "chiffres_hex (Suc k) d = chiffres_hex k (d div 16) @ [''0123456789abcdef'' ! (d mod 16)]"

definition hexdigest :: "nat \<Rightarrow> string" where
  "hexdigest d = chiffres_hex 64 d"

definition hacher_mot_de_passe :: "(string \<Rightarrow> nat) \<Rightarrow> string \<Rightarrow> string" where
  "hacher_mot_de_passe sha mot_de_passe = hexdigest (sha mot_de_passe)"

text \<open>
  \<^verbatim>\<open>f"{dollars:,.2f} $" if centimes != 0 else f"{dollars:,.0f} $"\<close> after
  \<^verbatim>\<open>dollars, centimes = divmod(montant_en_centimes, 100)\<close>. The integer \<open>dollars\<close> is
  printed as a float: its digits in groups of three, then \<open>.00\<close> or nothing. (Exact
  below \<open>2 ^ 53\<close> dollars, where the conversion to a float loses nothing.)
\<close>

fun grouper :: "string \<Rightarrow> string" where
  "grouper (a # b # c # d # r) = a # b # c # virgule # grouper (d # r)"
| "grouper r = r"

definition milliers :: "string \<Rightarrow> string" where
  "milliers s = rev (grouper (rev s))"

definition formater_argent :: "int \<Rightarrow> string" where
  "formater_argent montant_en_centimes =
     (let dollars = montant_en_centimes div 100;
          centimes = montant_en_centimes mod 100;
          corps = (if dollars < 0 then ''-'' else []) @ milliers (chiffres_de (nat \<bar>dollars\<bar>))
      in if centimes \<noteq> 0 then corps @ ''.00 $'' else corps @ '' $'')"

section \<open>Accounts (gestion_utilisateurs.py, transactions.py)\<close>

fun utilisateur_existe :: "string \<Rightarrow> fichier \<Rightarrow> erreur + bool" where
  "utilisateur_existe nom_utilisateur [] = Inr False"
| "utilisateur_existe nom_utilisateur (ligne # lignes) =
     (case trois_champs ligne of
        None \<Rightarrow> Inl ValueError
      | Some (utilisateur, _, _) \<Rightarrow>
          if utilisateur = nom_utilisateur then Inr True
          else utilisateur_existe nom_utilisateur lignes)"

fun recuperer_solde :: "string \<Rightarrow> fichier \<Rightarrow> erreur + int" where
  "recuperer_solde nom_utilisateur [] = Inr 0"
| "recuperer_solde nom_utilisateur (ligne # lignes) =
     (case trois_champs ligne of
        None \<Rightarrow> Inl ValueError
      | Some (utilisateur, _, solde) \<Rightarrow>
          if utilisateur = nom_utilisateur then
            (case py_int solde of None \<Rightarrow> Inl ValueError | Some n \<Rightarrow> Inr n)
          else recuperer_solde nom_utilisateur lignes)"

text \<open>
  \<^verbatim>\<open>secrets.compare_digest\<close> on two strings compares them, and raises
  \<^verbatim>\<open>TypeError\<close> when one of them holds a character outside ASCII.
\<close>

definition ascii :: "string \<Rightarrow> bool" where
  "ascii s = list_all (\<lambda>c. \<not> digit7 c) s"

fun connecter_utilisateur ::
  "(string \<Rightarrow> nat) \<Rightarrow> string \<Rightarrow> string \<Rightarrow> fichier \<Rightarrow> erreur + string option" where
  "connecter_utilisateur sha nom_utilisateur mot_de_passe [] = Inr None"
| "connecter_utilisateur sha nom_utilisateur mot_de_passe (ligne # lignes) =
     (case trois_champs ligne of
        None \<Rightarrow> Inl ValueError
      | Some (utilisateur, mot_de_passe_hache, _) \<Rightarrow>
          if utilisateur = nom_utilisateur then
            (if \<not> ascii mot_de_passe_hache then Inl TypeError
             else if hacher_mot_de_passe sha mot_de_passe = mot_de_passe_hache
               then Inr (Some nom_utilisateur)
             else connecter_utilisateur sha nom_utilisateur mot_de_passe lignes)
          else connecter_utilisateur sha nom_utilisateur mot_de_passe lignes)"

text \<open>
  The reading loop of \<^verbatim>\<open>ajouter_au_solde\<close>, its body first: every line is rebuilt
  from its three fields, the balance replaced on the lines of the user. The file is
  rewritten only after the loop, so an exception in the loop leaves it as it was.
\<close>

definition ligne_utilisateur :: "string \<Rightarrow> int \<Rightarrow> string \<Rightarrow> erreur + string" where
  "ligne_utilisateur nom_utilisateur montant ligne =
     (case trois_champs ligne of
        None \<Rightarrow> Inl ValueError
      | Some (utilisateur, mot_de_passe, solde) \<Rightarrow>
          if utilisateur = nom_utilisateur then
            (case py_int solde of
               None \<Rightarrow> Inl ValueError
             | Some n \<Rightarrow>
                 (case py_str (n + montant) of
                    None \<Rightarrow> Inl ValueError
                  | Some solde' \<Rightarrow> Inr (joindre3 utilisateur mot_de_passe solde')))
          else Inr (joindre3 utilisateur mot_de_passe solde))"

fun lignes_utilisateurs :: "string \<Rightarrow> int \<Rightarrow> fichier \<Rightarrow> erreur + string list" where
  "lignes_utilisateurs nom_utilisateur montant [] = Inr []"
| "lignes_utilisateurs nom_utilisateur montant (ligne # lignes) =
     (case ligne_utilisateur nom_utilisateur montant ligne of
        Inl e \<Rightarrow> Inl e
      | Inr nouvelle \<Rightarrow>
          (case lignes_utilisateurs nom_utilisateur montant lignes of
             Inl e \<Rightarrow> Inl e
           | Inr reste \<Rightarrow> Inr (nouvelle # reste)))"

definition ajouter_au_solde :: "string \<Rightarrow> int \<Rightarrow> fichier \<Rightarrow> (erreur + bool) \<times> fichier" where
  "ajouter_au_solde nom_utilisateur montant f =
     (case lignes_utilisateurs nom_utilisateur montant f of
        Inl e \<Rightarrow> (Inl e, f)
      | Inr lignes \<Rightarrow> (Inr True, lignes))"

text \<open>
  \<^verbatim>\<open>enregistrer_transaction\<close> builds the line with an f-string, which formats the two
  integers as \<^verbatim>\<open>str\<close> does, before it opens the file.
\<close>

definition enregistrer_transaction ::
  "string \<Rightarrow> string \<Rightarrow> int \<Rightarrow> int \<Rightarrow> instant \<Rightarrow> fichier \<Rightarrow> erreur + fichier" where
  "enregistrer_transaction expediteur destinataire montant frais maintenant f =
     (case py_str montant of
        None \<Rightarrow> Inl ValueError
      | Some m \<Rightarrow>
          (case py_str frais of
             None \<Rightarrow> Inl ValueError
           | Some fr \<Rightarrow>
               Inr (ajouter_ligne
                      (joindre5 expediteur destinataire m fr (strftime maintenant)) f)))"

section \<open>Registration, transfer and history\<close>

text \<open>
  \<^verbatim>\<open>enregistrer_utilisateur\<close>, with the two typed lines and the clock as arguments.
  The result is the returned boolean, or the exception that left the function, and the
  state of the two files at that moment.
\<close>

definition enregistrer_utilisateur ::
  "(string \<Rightarrow> nat) \<Rightarrow> string \<Rightarrow> string \<Rightarrow> instant \<Rightarrow> etat \<Rightarrow> (erreur + bool) \<times> etat" where
  "enregistrer_utilisateur sha nom_utilisateur mot_de_passe maintenant st =
     (if nom_utilisateur = [] \<or> mot_de_passe = [] then (Inr False, st)
      else
        (case utilisateur_existe nom_utilisateur (utilisateurs st) of
           Inl e \<Rightarrow> (Inl e, st)
         | Inr True \<Rightarrow> (Inr False, st)
         | Inr False \<Rightarrow>
             (case py_str SOLDE_INITIAL of
                None \<Rightarrow> (Inl ValueError, st)
              | Some solde \<Rightarrow>
                  (let st1 = st\<lparr>utilisateurs :=
                         ajouter_ligne
                           (joindre3 nom_utilisateur (hacher_mot_de_passe sha mot_de_passe) solde)
                           (utilisateurs st)\<rparr>
                   in case enregistrer_transaction NOM_UTILISATEUR_ADMIN nom_utilisateur
                             SOLDE_INITIAL 0 maintenant (transactions st) of
                        Inl e \<Rightarrow> (Inl e, st1)
                      | Inr journal \<Rightarrow> (Inr True, st1\<lparr>transactions := journal\<rparr>)))))"

text \<open>
  The amount typed for a transfer goes through floating point:
  \<^verbatim>\<open>float(input(...))\<close>, the test \<^verbatim>\<open>montant_dollars <= 0\<close> and
  \<^verbatim>\<open>int(montant_dollars * 100)\<close>. The model takes the outcome of these three steps:
  \<^item> \<open>Illisible\<close>: the text is no number, \<^verbatim>\<open>float\<close> raises \<^verbatim>\<open>ValueError\<close>;
  \<^item> \<open>NonPositif\<close>: a number that is negative, zero or minus infinity;
  \<^item> \<open>PasUnNombre\<close>: a NaN, which passes the test and makes \<^verbatim>\<open>int\<close> raise
    \<^verbatim>\<open>ValueError\<close>;
  \<^item> \<open>Infini\<close>: a positive number whose hundredfold is infinite, \<^verbatim>\<open>int\<close> raises
    \<^verbatim>\<open>OverflowError\<close>;
  \<^item> \<open>Positif c\<close>: a positive number whose conversion gives \<open>c\<close> cents (zero for an
    amount below one cent).
\<close>

datatype montant_saisi = Illisible | NonPositif | PasUnNombre | Infini | Positif nat

definition debiter_crediter ::
  "string \<Rightarrow> string \<Rightarrow> int \<Rightarrow> int \<Rightarrow> instant \<Rightarrow> etat \<Rightarrow> (erreur + bool) \<times> etat" where
  "debiter_crediter nom_utilisateur destinataire montant_centimes frais maintenant st =
     (case ajouter_au_solde nom_utilisateur (- montant_centimes - frais) (utilisateurs st) of
        (Inl e, f1) \<Rightarrow> (Inl e, st\<lparr>utilisateurs := f1\<rparr>)
      | (Inr ok1, f1) \<Rightarrow>
          if \<not> ok1 then (Inr False, st\<lparr>utilisateurs := f1\<rparr>)
          else
            (case ajouter_au_solde destinataire montant_centimes f1 of
               (Inl e, f2) \<Rightarrow> (Inl e, st\<lparr>utilisateurs := f2\<rparr>)
             | (Inr ok2, f2) \<Rightarrow>
                 if \<not> ok2 then (Inr False, st\<lparr>utilisateurs := f2\<rparr>)
                 else
                   (case enregistrer_transaction nom_utilisateur destinataire
                           montant_centimes frais maintenant (transactions st) of
                      Inl e \<Rightarrow> (Inl e, st\<lparr>utilisateurs := f2\<rparr>)
                    | Inr journal \<Rightarrow>
                        (Inr True, \<lparr>utilisateurs = f2, transactions = journal\<rparr>))))"

definition envoyer_argent ::
  "string \<Rightarrow> string \<Rightarrow> montant_saisi \<Rightarrow> instant \<Rightarrow> etat \<Rightarrow> (erreur + bool) \<times> etat" where
  "envoyer_argent nom_utilisateur destinataire montant_dollars maintenant st =
     (if montant_dollars = Illisible then (Inl ValueError, st)
      else if destinataire = nom_utilisateur then (Inr False, st)
      else if montant_dollars = NonPositif then (Inr False, st)
      else
        (case recuperer_solde nom_utilisateur (utilisateurs st) of
           Inl e \<Rightarrow> (Inl e, st)
         | Inr solde_exp \<Rightarrow>
             (case montant_dollars of
                PasUnNombre \<Rightarrow> (Inl ValueError, st)
              | Infini \<Rightarrow> (Inl OverflowError, st)
              | Positif c \<Rightarrow>
                  (let montant_centimes = int c; frais = calculer_frais montant_centimes in
                   if solde_exp < montant_centimes + frais then (Inr False, st)
                   else
                     (case recuperer_solde destinataire (utilisateurs st) of
                        Inl e \<Rightarrow> (Inl e, st)
                      | Inr solde_dest \<Rightarrow>
                          debiter_crediter nom_utilisateur destinataire montant_centimes frais
                            maintenant st))
              | _ \<Rightarrow> (Inr False, st))))"


section \<open>Sessions and vocabulary of the properties\<close>

text \<open>
  The main loop lets a visitor register, and lets a user who logged in with a name and a
  password send money. \<open>derouler\<close> runs a sequence of such actions, each of which has
  to succeed: a registration that returns \<^verbatim>\<open>True\<close>, or a login that returns the name
  followed by a transfer that returns \<^verbatim>\<open>True\<close>.
\<close>

datatype action =
    Inscription string string instant
  | Envoi string string string montant_saisi instant

fun derouler :: "(string \<Rightarrow> nat) \<Rightarrow> action list \<Rightarrow> etat \<Rightarrow> etat option" where
  "derouler sha [] st = Some st"
| "derouler sha (Inscription nom mdp t # suite) st =
     (case enregistrer_utilisateur sha nom mdp t st of
        (Inr True, st') \<Rightarrow> derouler sha suite st'
      | _ \<Rightarrow> None)"
| "derouler sha (Envoi nom mdp destinataire montant t # suite) st =
     (case connecter_utilisateur sha nom mdp (utilisateurs st) of
        Inr (Some connecte) \<Rightarrow>
          (case envoyer_argent connecte destinataire montant t st of
             (Inr True, st') \<Rightarrow> derouler sha suite st'
           | _ \<Rightarrow> None)
      | _ \<Rightarrow> None)"

text \<open>The name and the balance of the record a line of the accounts file holds.\<close>

definition nom_ligne :: "string \<Rightarrow> string option" where
  "nom_ligne ligne = map_option fst (trois_champs ligne)"

definition solde_ligne :: "string \<Rightarrow> int option" where
  "solde_ligne ligne =
     (case trois_champs ligne of None \<Rightarrow> None | Some (u, p, s) \<Rightarrow> py_int s)"

text \<open>
  An accounts file whose lines all hold a record, under names that differ, each with a
  balance that is not negative.
\<close>

definition comptes_sains :: "fichier \<Rightarrow> bool" where
  "comptes_sains f =
     (distinct (map nom_ligne f) \<and> (\<forall>l \<in> set f. \<exists>n. solde_ligne l = Some n \<and> 0 \<le> n))"

text \<open>
  A typed name that the files give back as it was typed: no comma, no line end inside,
  and a first character that is not whitespace.
\<close>

definition nom_propre :: "string \<Rightarrow> bool" where
  "nom_propre nom =
     (nom \<noteq> [] \<and> \<not> espace (hd nom) \<and> virgule \<notin> set nom \<and> LF \<notin> set nom \<and> CR \<notin> set nom)"

fun inscriptions_propres :: "action list \<Rightarrow> bool" where
  "inscriptions_propres [] = True"
| "inscriptions_propres (Inscription nom mdp t # suite) =
     (nom_propre nom \<and> inscriptions_propres suite)"
| "inscriptions_propres (Envoi nom mdp destinataire montant t # suite) =
     inscriptions_propres suite"

text \<open>
  A well-formed line of the accounts file: read as the program reads it, it has three
  fields, the third an integer.
\<close>

definition ligne_bien_formee :: "string \<Rightarrow> bool" where
  "ligne_bien_formee ligne = (solde_ligne ligne \<noteq> None)"

definition fichier_bien_forme :: "fichier \<Rightarrow> bool" where
  "fichier_bien_forme f = list_all ligne_bien_formee f"

text \<open>
  The balances \<^verbatim>\<open>ajouter_au_solde\<close> has to print: on every line of the name, the balance
  plus the amount is an integer that \<^verbatim>\<open>str\<close> accepts.
\<close>

definition soldes_imprimables :: "string \<Rightarrow> int \<Rightarrow> fichier \<Rightarrow> bool" where
  "soldes_imprimables nom montant f =
     list_all (\<lambda>ligne. nom_ligne ligne = Some nom \<longrightarrow>
                 (case solde_ligne ligne of None \<Rightarrow> False | Some n \<Rightarrow> imprimable (n + montant))) f"






definition sans_separateur :: "string \<Rightarrow> bool" where
  "sans_separateur s = (virgule \<notin> set s \<and> LF \<notin> set s \<and> CR \<notin> set s)"


text \<open>
  The lines of the transaction file that record the funding of \<open>nom\<close>: sent by the
  administrative account, received by \<open>nom\<close>, for the initial balance.
\<close>

definition financement :: "string \<Rightarrow> string \<Rightarrow> bool" where
  "financement nom ligne =
     (case cinq_champs ligne of
        None \<Rightarrow> False
      | Some (e, d, m, f, dh) \<Rightarrow>
          e = NOM_UTILISATEUR_ADMIN \<and> d = nom \<and> py_int m = Some SOLDE_INITIAL)"

definition financements :: "string \<Rightarrow> fichier \<Rightarrow> string list" where
  "financements nom f = filter (financement nom) f"

section \<open>A small example state\<close>

text \<open>Two accounts of 1000 dollars each, and a clock, used where a property is run.\<close>

definition instant_exemple :: instant where
  "instant_exemple = \<lparr>annee = 2024, mois = 3, jour = 9, heure = 14, minute = 5, seconde = 0\<rparr>"

definition hachage_exemple :: string where
  "hachage_exemple = ''5e884898da28047151d0e56f8dfc6292773603d0d6aabbdd62a11ef721d1542d''"

definition comptes_exemple :: fichier where
  "comptes_exemple =
     [''alice,'' @ hachage_exemple @ '',100000'', ''bob,'' @ hachage_exemple @ '',100000'']"

definition etat_exemple :: etat where
  "etat_exemple = \<lparr>utilisateurs = comptes_exemple, transactions = []\<rparr>"

text \<open>
  An amount of 4301 digits, and accounts files with a name registered behind a space or
  a balance of 5 cents.
\<close>

definition montant_enorme :: int where
  "montant_enorme = 10 ^ 4300"

definition comptes_espace :: fichier where
  "comptes_espace = ['' bob,'' @ hachage_exemple @ '',100000'']"

definition comptes_melanges :: fichier where
  "comptes_melanges =
     ['' bob,'' @ hachage_exemple @ '',100000'', ''alice,'' @ hachage_exemple @ '',200'']"

definition ligne_cinq :: string where
  "ligne_cinq = ''bob,'' @ hachage_exemple @ '',5''"

definition comptes_cinq :: fichier where
  "comptes_cinq = [ligne_cinq]"


text \<open>
  A stand-in for the digest, the lines of an account and of a transaction under the
  password \<open>pw\<close> and the example clock, and two sessions: in the first the name of the
  administrative account is registered and later sends 1000 dollars to a name that
  registers afterwards; in the second a name is registered a second time behind a
  space.
\<close>

definition sha_exemple :: "string \<Rightarrow> nat" where
  "sha_exemple m = length m"

definition compte :: "string \<Rightarrow> int \<Rightarrow> string" where
  "compte nom solde = joindre3 nom (hacher_mot_de_passe sha_exemple ''pw'') (decimal solde)"

definition ecriture :: "string \<Rightarrow> string \<Rightarrow> int \<Rightarrow> int \<Rightarrow> string" where
  "ecriture e d m f = joindre5 e d (decimal m) (decimal f) (strftime instant_exemple)"

definition suite_fantome :: "action list" where
  "suite_fantome =
     [Inscription ''ift-1004-union'' ''pw'' instant_exemple,
      Inscription ''alice'' ''pw'' instant_exemple,
      Envoi ''alice'' ''pw'' ''ift-1004-union'' (Positif 50000) instant_exemple,
      Envoi ''ift-1004-union'' ''pw'' ''ghost'' (Positif 100000) instant_exemple,
      Inscription ''ghost'' ''pw'' instant_exemple]"

definition suite_doublon :: "action list" where
  "suite_doublon =
     [Inscription ''bob'' ''pw'' instant_exemple,
      Inscription ''alice'' ''pw'' instant_exemple,
      Envoi ''alice'' ''pw'' ''bob'' (Positif 50000) instant_exemple,
      Inscription '' bob'' ''pw'' instant_exemple,
      Envoi ''bob'' ''pw'' ''alice'' (Positif 100000) instant_exemple]"

text \<open>A session of two registrations and one transfer of 500 dollars.\<close>

definition suite_simple :: "action list" where
  "suite_simple =
     [Inscription ''bob'' ''pw'' instant_exemple,
      Inscription ''alice'' ''pw'' instant_exemple,
      Envoi ''alice'' ''pw'' ''bob'' (Positif 50000) instant_exemple]"

section \<open>Text lemmas\<close>

lemma non_espace_virgule [simp]: "\<not> espace virgule"
  by (simp add: espace_def virgule_def)

lemma split_virgule_non_vide [simp]: "split_virgule s \<noteq> []"
  by (induction s) (auto split: list.splits)

lemma split_virgule_sans: "virgule \<notin> set s \<Longrightarrow> split_virgule s = [s]"
  by (induction s) auto

lemma split_virgule_append:
  "virgule \<notin> set u \<Longrightarrow> split_virgule (u @ virgule # r) = u # split_virgule r"
  by (induction u) auto

lemma champs_sans_virgule: "f \<in> set (split_virgule s) \<Longrightarrow> virgule \<notin> set f"
proof (induction s arbitrary: f)
  case Nil
  then show ?case by simp
next
  case (Cons c cs)
  show ?case
  proof (cases "c = virgule")
    case True
    with Cons show ?thesis by auto
  next
    case False
    obtain w ws where w: "split_virgule cs = w # ws"
      by (cases "split_virgule cs") auto
    with Cons.prems False have "f = c # w \<or> f \<in> set ws" by auto
    with Cons.IH w False show ?thesis by auto
  qed
qed

lemma split_virgule_trois:
  "split_virgule x = [u, p, s] \<Longrightarrow> x = joindre3 u p s"
proof (induction x arbitrary: u)
  case Nil
  then show ?case by simp
next
  case (Cons c cs)
  show ?case
  proof (cases "c = virgule")
    case True
    with Cons.prems have u: "u = []" and r: "split_virgule cs = [p, s]" by auto
    have "cs = p @ virgule # s" using r
    proof (induction cs arbitrary: p)
      case Nil then show ?case by simp
    next
      case (Cons d ds)
      show ?case
      proof (cases "d = virgule")
        case True
        with Cons.prems have "p = []" "split_virgule ds = [s]" by auto
        moreover from this(2) have "ds = s"
        proof (induction ds arbitrary: s)
          case Nil then show ?case by simp
        next
          case (Cons e es)
          then show ?case by (auto split: if_splits list.splits)
        qed
        ultimately show ?thesis using True by simp
      next
        case False
        with Cons.prems obtain p' where "p = d # p'" "split_virgule ds = [p', s]"
          by (auto split: list.splits)
        with Cons.IH show ?thesis by simp
      qed
    qed
    with u True show ?thesis by (simp add: joindre3_def)
  next
    case False
    with Cons.prems obtain u' where "u = c # u'" "split_virgule cs = [u', p, s]"
      by (auto split: list.splits)
    with Cons.IH show ?thesis by (simp add: joindre3_def)
  qed
qed

lemma dropWhile_espace_append:
  "\<not> espace c \<Longrightarrow> dropWhile espace (u @ c # r) = dropWhile espace u @ c # r"
  by (induction u) auto

lemma rstrip_fixe:
  assumes "y \<noteq> []" "\<not> espace (last y)"
  shows "rev (dropWhile espace (rev y)) = y"
proof -
  from assms(1) obtain b l where y: "y = b @ [l]"
    by (metis append_butlast_last_id)
  with assms(2) show ?thesis by simp
qed

lemma strip_dernier:
  assumes "x \<noteq> []" "\<not> espace (last x)"
  shows "strip x = dropWhile espace x"
proof -
  from assms(1) obtain b l where x: "x = b @ [l]"
    by (metis append_butlast_last_id)
  with assms(2) have l: "\<not> espace l" by simp
  then have d: "dropWhile espace x = dropWhile espace b @ [l]"
    using dropWhile_espace_append [of l b "[]"] x by simp
  then show ?thesis
    using l by (simp add: strip_def)
qed

lemma strip_fixe:
  assumes "x = [] \<or> (\<not> espace (hd x) \<and> \<not> espace (last x))"
  shows "strip x = x"
proof (cases x)
  case Nil
  then show ?thesis by (simp add: strip_def)
next
  case (Cons a as)
  with assms have "\<not> espace a" "\<not> espace (last x)" by auto
  then show ?thesis
    using Cons strip_dernier [of x] by simp
qed

lemma strip_bords:
  assumes "strip x \<noteq> []"
  shows "\<not> espace (hd (strip x)) \<and> \<not> espace (last (strip x))"
proof -
  let ?m = "dropWhile espace (rev (dropWhile espace x))"
  from assms have m: "?m \<noteq> []" by (simp add: strip_def)
  then have "\<not> espace (hd ?m)" by (rule hd_dropWhile)
  then have dernier: "\<not> espace (last (strip x))"
    using m by (simp add: strip_def last_rev)
  have dx: "dropWhile espace x \<noteq> []"
    using m by (metis dropWhile.simps(1) rev.simps(1))
  then have h: "\<not> espace (hd (dropWhile espace x))" by (rule hd_dropWhile)
  obtain a r where ar: "dropWhile espace x = a # r" using dx by (cases "dropWhile espace x") auto
  with h have a: "\<not> espace a" by simp
  have "rev (dropWhile espace (rev (a # r))) = a # rev (dropWhile espace (rev r))
        \<or> rev (dropWhile espace (rev (a # r))) = [a]"
    using a by (simp add: dropWhile_append)
  then have "hd (strip x) = a" using ar by (auto simp: strip_def)
  with a dernier show ?thesis by simp
qed

lemma strip_idem: "strip (strip x) = strip x"
  using strip_bords [of x] strip_fixe [of "strip x"] by blast


lemma petit_nombre:
  "d < 10 \<Longrightarrow> d = 0 \<or> d = 1 \<or> d = 2 \<or> d = 3 \<or> d = 4 \<or> d = 5 \<or> d = 6 \<or> d = 7 \<or> d = 8 \<or> d = (9::nat)"
  by arith

lemma chiffre_de_props:
  assumes "d < 10"
  shows "chiffre (chiffre_de d)" "valeur_chiffre (chiffre_de d) = d"
    "\<not> espace (chiffre_de d)" "chiffre_de d \<noteq> virgule"
    "chiffre_de d \<noteq> CHR ''-''" "chiffre_de d \<noteq> CHR ''+''"
    "chiffre_de d \<noteq> LF" "chiffre_de d \<noteq> CR"
  using petit_nombre [OF assms]
  by (auto simp: chiffre_de_def chiffre_def valeur_chiffre_def espace_def virgule_def LF_def CR_def)

lemma chiffre_props:
  assumes "chiffre c"
  shows "\<not> espace c" "c \<noteq> virgule" "c \<noteq> CHR ''-''" "c \<noteq> CHR ''+''" "c \<noteq> LF" "c \<noteq> CR"
  using assms by (auto simp: chiffre_def espace_def virgule_def LF_def CR_def)

lemma chiffres_de_chiffres: "list_all chiffre (chiffres_de n) \<and> chiffres_de n \<noteq> []"
proof (induction n rule: chiffres_de.induct)
  case (1 n)
  show ?case
  proof (cases "n < 10")
    case True
    then show ?thesis by (simp add: chiffres_de.simps [of n] chiffre_de_props)
  next
    case False
    with 1 show ?thesis by (simp add: chiffres_de.simps [of n] chiffre_de_props)
  qed
qed

lemma valeur_chiffres_dernier:
  "list_all chiffre ds \<Longrightarrow> chiffre d \<Longrightarrow>
   valeur_chiffres acc (ds @ [d]) =
     map_option (\<lambda>a. 10 * a + valeur_chiffre d) (valeur_chiffres acc ds)"
proof (induction ds arbitrary: acc)
  case Nil
  then show ?case by simp
next
  case (Cons c cs)
  then show ?case by (cases cs) auto
qed

lemma valeur_chiffres_de:
  "chiffres_de n = c # cs \<Longrightarrow> valeur_chiffres (valeur_chiffre c) cs = Some n"
proof (induction n arbitrary: c cs rule: chiffres_de.induct)
  case (1 n)
  show ?case
  proof (cases "n < 10")
    case True
    with "1.prems" have "c = chiffre_de n" "cs = []"
      by (simp_all add: chiffres_de.simps [of n])
    with True show ?thesis by (simp add: chiffre_de_props)
  next
    case False
    have d: "chiffre (chiffre_de (n mod 10))" "valeur_chiffre (chiffre_de (n mod 10)) = n mod 10"
      by (simp_all add: chiffre_de_props)
    obtain c' cs' where q: "chiffres_de (n div 10) = c' # cs'"
      using chiffres_de_chiffres [of "n div 10"] by (cases "chiffres_de (n div 10)") auto
    from False have "chiffres_de n = chiffres_de (n div 10) @ [chiffre_de (n mod 10)]"
      by (simp add: chiffres_de.simps [of n])
    with q "1.prems" have c: "c = c'" "cs = cs' @ [chiffre_de (n mod 10)]" by simp_all
    from q have "list_all chiffre cs'" using chiffres_de_chiffres [of "n div 10"] by simp
    then have "valeur_chiffres (valeur_chiffre c') (cs' @ [chiffre_de (n mod 10)]) =
        map_option (\<lambda>a. 10 * a + n mod 10) (valeur_chiffres (valeur_chiffre c') cs')"
      using valeur_chiffres_dernier [of cs' "chiffre_de (n mod 10)"] d by simp
    moreover have "valeur_chiffres (valeur_chiffre c') cs' = Some (n div 10)"
      using "1.IH" [OF False q] .
    ultimately show ?thesis using c by simp
  qed
qed

lemma filtre_chiffres: "list_all chiffre ds \<Longrightarrow> filter chiffre ds = ds"
  by (induction ds) auto

lemma entier_litteral_chiffres_de:
  "length (chiffres_de n) \<le> MAX_STR_DIGITS \<Longrightarrow> entier_litteral (chiffres_de n) = Some n"
proof -
  assume l: "length (chiffres_de n) \<le> MAX_STR_DIGITS"
  obtain c cs where q: "chiffres_de n = c # cs"
    using chiffres_de_chiffres [of n] by (cases "chiffres_de n") auto
  then have "chiffre c" "filter chiffre (c # cs) = c # cs"
    using chiffres_de_chiffres [of n] filtre_chiffres [of "chiffres_de n"] by simp_all
  with l q valeur_chiffres_de [OF q] show ?thesis
    by (simp add: entier_litteral_def del: filter.simps)
qed

lemma longueur_chiffres_de:
  "n < 10 ^ k \<Longrightarrow> 0 < k \<Longrightarrow> length (chiffres_de n) \<le> k"
proof (induction n arbitrary: k rule: chiffres_de.induct)
  case (1 n)
  show ?case
  proof (cases "n < 10")
    case True
    with "1.prems" show ?thesis by (simp add: chiffres_de.simps [of n])
  next
    case False
    from "1.prems"(2) obtain j where k: "k = Suc j" by (cases k) auto
    with "1.prems"(1) False have j: "0 < j" by (cases j) auto
    from "1.prems"(1) k have "n div 10 < 10 ^ j" by (simp add: less_mult_imp_div_less mult.commute)
    from "1.IH" [OF False this j] show ?thesis
      using False k by (simp add: chiffres_de.simps [of n])
  qed
qed

lemma imprimable_court: "\<bar>i\<bar> < 10000000000 \<Longrightarrow> imprimable i"
proof -
  assume "\<bar>i\<bar> < 10000000000"
  then have "nat \<bar>i\<bar> < 10 ^ 10" by simp
  then have "length (chiffres_de (nat \<bar>i\<bar>)) \<le> 10" by (rule longueur_chiffres_de) simp
  then show ?thesis by (simp add: imprimable_def MAX_STR_DIGITS_def)
qed

lemma decimal_chiffres:
  "decimal i \<noteq> [] \<and> list_all (\<lambda>c. chiffre c \<or> c = CHR ''-'') (decimal i) \<and> chiffre (last (decimal i))"
proof -
  have a: "list_all chiffre ds \<Longrightarrow> list_all (\<lambda>c. chiffre c \<or> c = CHR ''-'') ds" for ds
    by (induction ds) auto
  have b: "list_all chiffre ds \<Longrightarrow> ds \<noteq> [] \<Longrightarrow> chiffre (last ds)" for ds
    by (induction ds) auto
  show ?thesis
    using chiffres_de_chiffres a b by (simp add: decimal_def)
qed

lemma decimal_propre:
  "virgule \<notin> set (decimal i)" "LF \<notin> set (decimal i)" "CR \<notin> set (decimal i)"
  "\<not> espace (last (decimal i))" "\<not> espace (hd (decimal i))" "decimal i \<noteq> []"
  "\<not> espace_entier (last (decimal i))" "\<not> espace_entier (hd (decimal i))"
proof -
  have m: "c \<in> set (decimal i) \<Longrightarrow> chiffre c \<or> c = CHR ''-''" for c
    using decimal_chiffres [of i] by (auto simp: list_all_iff)
  have n: "chiffre c \<or> c = CHR ''-'' \<Longrightarrow>
      c \<noteq> virgule \<and> c \<noteq> LF \<and> c \<noteq> CR \<and> \<not> espace c \<and> \<not> espace_entier c" for c
    by (auto simp: chiffre_def espace_def espace_entier_def virgule_def LF_def CR_def)
  show "virgule \<notin> set (decimal i)" "LF \<notin> set (decimal i)" "CR \<notin> set (decimal i)"
    using m n by blast+
  show ne: "decimal i \<noteq> []" using decimal_chiffres by simp
  then have "last (decimal i) \<in> set (decimal i)" "hd (decimal i) \<in> set (decimal i)" by simp_all
  then show "\<not> espace (last (decimal i))" "\<not> espace (hd (decimal i))"
    "\<not> espace_entier (last (decimal i))" "\<not> espace_entier (hd (decimal i))"
    using m n by blast+
qed

lemma bords_fixes:
  assumes "x \<noteq> []" "\<not> P (hd x)" "\<not> P (last x)"
  shows "rev (dropWhile P (rev (dropWhile P x))) = x"
proof -
  from assms(1,2) have "dropWhile P x = x" by (cases x) auto
  moreover from assms(1) obtain b l where "x = b @ [l]"
    by (metis append_butlast_last_id)
  ultimately show ?thesis using assms(3) by simp
qed

lemma py_int_decimal: "imprimable i \<Longrightarrow> py_int (decimal i) = Some i"
proof -
  assume p: "imprimable i"
  have s: "rev (dropWhile espace_entier (rev (dropWhile espace_entier (decimal i)))) = decimal i"
    using decimal_propre [of i] by (intro bords_fixes) simp_all
  show ?thesis
  proof (cases "i < 0")
    case True
    with p have "entier_litteral (chiffres_de (nat (- i))) = Some (nat (- i))"
      by (intro entier_litteral_chiffres_de) (simp add: imprimable_def)
    with True show ?thesis
      by (simp add: py_int_def s) (simp add: decimal_def)
  next
    case False
    with p have e: "entier_litteral (chiffres_de (nat i)) = Some (nat i)"
      by (intro entier_litteral_chiffres_de) (simp add: imprimable_def)
    obtain c cs where cs: "chiffres_de (nat i) = c # cs"
      using chiffres_de_chiffres [of "nat i"] by (cases "chiffres_de (nat i)") auto
    then have "chiffre c" using chiffres_de_chiffres [of "nat i"] by simp
    then have "c \<noteq> CHR ''-''" "c \<noteq> CHR ''+''" by (simp_all add: chiffre_props)
    moreover have d: "decimal i = c # cs" using False cs by (simp add: decimal_def)
    ultimately show ?thesis
      using s False cs e by (simp add: py_int_def)
  qed
qed

lemma py_str_Some:
  "py_str i = Some s \<Longrightarrow> s = decimal i \<and> imprimable i \<and> py_int s = Some i"
  by (auto simp: py_str_def py_int_decimal split: if_splits)

lemma py_str_court: "\<bar>i\<bar> < 10000000000 \<Longrightarrow> py_str i = Some (decimal i)"
  by (simp add: py_str_def imprimable_court)

lemma py_int_decimal_court: "\<bar>i\<bar> < 10000000000 \<Longrightarrow> py_int (decimal i) = Some i"
  by (simp add: py_int_decimal imprimable_court)

lemma longueur_chiffres_de_grand:
  "10 ^ k \<le> n \<Longrightarrow> k < length (chiffres_de n)"
proof (induction n arbitrary: k rule: chiffres_de.induct)
  case (1 n)
  show ?case
  proof (cases k)
    case 0
    then show ?thesis using chiffres_de_chiffres [of n] by (cases "chiffres_de n") auto
  next
    case (Suc j)
    with "1.prems" have g: "10 * 10 ^ j \<le> n" by simp
    have "(1::nat) \<le> 10 ^ j" by simp
    then have "(10::nat) \<le> 10 * 10 ^ j" by simp
    with g have n: "\<not> n < 10" by linarith
    from g have "(10 * 10 ^ j) div 10 \<le> n div 10" by (rule div_le_mono)
    then have "10 ^ j \<le> n div 10" by simp
    from "1.IH" [OF n this] show ?thesis
      using n Suc by (simp add: chiffres_de.simps [of n])
  qed
qed

lemma non_imprimable_grand:
  assumes "10 ^ k \<le> \<bar>i\<bar>" "MAX_STR_DIGITS \<le> k"
  shows "\<not> imprimable i"
proof -
  have "nat (10 ^ k) \<le> nat \<bar>i\<bar>" using assms(1) by (rule nat_mono)
  moreover have "nat ((10::int) ^ k) = 10 ^ k" by (simp add: nat_power_eq)
  ultimately have "(10::nat) ^ k \<le> nat \<bar>i\<bar>" by simp
  then have "k < length (chiffres_de (nat \<bar>i\<bar>))" by (rule longueur_chiffres_de_grand)
  with assms(2) show ?thesis by (simp add: imprimable_def)
qed

section \<open>The fee schedule\<close>

lemma tronquer_quotient_mono:
  "0 \<le> a \<Longrightarrow> a \<le> b \<Longrightarrow> 0 \<le> r \<Longrightarrow>
   tronquer_quotient (a * r) 100 \<le> tronquer_quotient (b * r) 100"
  by (simp add: tronquer_quotient_def zdiv_mono1 mult_right_mono)

lemma tronquer_quotient_nonneg: "0 \<le> a \<Longrightarrow> 0 \<le> tronquer_quotient a 100"
  by (simp add: tronquer_quotient_def)

lemma calculer_frais_tranches:
  "calculer_frais m =
     (if m < 0 then 0
      else if m \<le> 100 then tronquer_quotient (m * 5) 100
      else if m \<le> 500 then tronquer_quotient (m * 10) 100
      else if m \<le> 1000 then tronquer_quotient (m * 15) 100
      else if m \<le> 5000 then tronquer_quotient (m * 20) 100
      else tronquer_quotient (m * 25) 100)"
  by (simp add: calculer_frais_def FRAIS_TRANSACTIONS_def dans_tranche_def)

lemma calculer_frais_nonneg: "0 \<le> calculer_frais m"
  by (simp add: calculer_frais_tranches tronquer_quotient_nonneg)

text \<open>
  C2. The claim expects a fee of 500 cents on 10000 cents and of 2000 cents on 20000
  cents, reading the bounds of the tiers as dollars (as the comment on
  \<^verbatim>\<open>FRAIS_TRANSACTIONS\<close> says they are). \<^verbatim>\<open>calculer_frais\<close> compares the amount in cents
  with these bounds, so both amounts fall into the last tier: the fees are 2500 and 5000
  cents.
\<close>

theorem calculer_frais_exemples:
  "calculer_frais 10000 = 2500 \<and> calculer_frais 20000 = 5000"
  by (simp add: calculer_frais_tranches tronquer_quotient_def)

lemma monotone_dans_tranche:
  assumes "t \<in> set FRAIS_TRANSACTIONS" "dans_tranche t a" "dans_tranche t b" "a \<le> b"
  shows "calculer_frais a \<le> calculer_frais b"
proof -
  from assms(1) consider
      "t = \<lparr>min_tranche = 0, max_tranche = Finie 100, frais_tranche = 5\<rparr>"
    | "t = \<lparr>min_tranche = 101, max_tranche = Finie 500, frais_tranche = 10\<rparr>"
    | "t = \<lparr>min_tranche = 501, max_tranche = Finie 1000, frais_tranche = 15\<rparr>"
    | "t = \<lparr>min_tranche = 1001, max_tranche = Finie 5000, frais_tranche = 20\<rparr>"
    | "t = \<lparr>min_tranche = 5001, max_tranche = Infinie, frais_tranche = 25\<rparr>"
    by (auto simp: FRAIS_TRANSACTIONS_def)
  then show ?thesis
  proof cases
    case 1
    with assms(2,3) have "0 \<le> a" "a \<le> 100" "0 \<le> b" "b \<le> 100"
      by (simp_all add: dans_tranche_def)
    then show ?thesis
      using assms(4) by (simp add: calculer_frais_tranches tronquer_quotient_mono)
  next
    case 2
    with assms(2,3) have "101 \<le> a" "a \<le> 500" "101 \<le> b" "b \<le> 500"
      by (simp_all add: dans_tranche_def)
    then show ?thesis
      using assms(4) by (simp add: calculer_frais_tranches tronquer_quotient_mono)
  next
    case 3
    with assms(2,3) have "501 \<le> a" "a \<le> 1000" "501 \<le> b" "b \<le> 1000"
      by (simp_all add: dans_tranche_def)
    then show ?thesis
      using assms(4) by (simp add: calculer_frais_tranches tronquer_quotient_mono)
  next
    case 4
    with assms(2,3) have "1001 \<le> a" "a \<le> 5000" "1001 \<le> b" "b \<le> 5000"
      by (simp_all add: dans_tranche_def)
    then show ?thesis
      using assms(4) by (simp add: calculer_frais_tranches tronquer_quotient_mono)
  next
    case 5
    with assms(2,3) have "5001 \<le> a" "5001 \<le> b"
      by (simp_all add: dans_tranche_def)
    then show ?thesis
      using assms(4) by (simp add: calculer_frais_tranches tronquer_quotient_mono)
  qed
qed

lemma frontieres_croissantes:
  assumes "Suc i < length FRAIS_TRANSACTIONS" "max_tranche (FRAIS_TRANSACTIONS ! i) = Finie h"
  shows "min_tranche (FRAIS_TRANSACTIONS ! Suc i) = h + 1 \<and>
         calculer_frais h \<le> calculer_frais (h + 1)"
proof -
  from assms(1) have "i < 4" by (simp add: FRAIS_TRANSACTIONS_def)
  then consider "i = 0" | "i = 1" | "i = 2" | "i = 3" by linarith
  then show ?thesis
  proof cases
    case 1 with assms(2) show ?thesis
      by (auto simp: FRAIS_TRANSACTIONS_def calculer_frais_tranches tronquer_quotient_def)
  next
    case 2 with assms(2) show ?thesis
      by (auto simp: FRAIS_TRANSACTIONS_def calculer_frais_tranches tronquer_quotient_def)
  next
    case 3 with assms(2) show ?thesis
      by (auto simp: FRAIS_TRANSACTIONS_def calculer_frais_tranches tronquer_quotient_def
          numeral_2_eq_2)
  next
    case 4 with assms(2) show ?thesis
      by (auto simp: FRAIS_TRANSACTIONS_def calculer_frais_tranches tronquer_quotient_def
          numeral_3_eq_3)
  qed
qed

text \<open>
  C7. Inside each configured tier the fee does not decrease when the amount grows; and
  where a tier ends at \<open>h\<close>, the next tier starts at \<open>h + 1\<close> and the fee on \<open>h + 1\<close> is
  at least the fee on \<open>h\<close>.
\<close>

theorem calculer_frais_monotone:
  "(\<forall>t \<in> set FRAIS_TRANSACTIONS. \<forall>a b.
      dans_tranche t a \<longrightarrow> dans_tranche t b \<longrightarrow> a \<le> b \<longrightarrow> calculer_frais a \<le> calculer_frais b) \<and>
   (\<forall>i h. Suc i < length FRAIS_TRANSACTIONS \<longrightarrow> max_tranche (FRAIS_TRANSACTIONS ! i) = Finie h \<longrightarrow>
      min_tranche (FRAIS_TRANSACTIONS ! Suc i) = h + 1 \<and>
      calculer_frais h \<le> calculer_frais (min_tranche (FRAIS_TRANSACTIONS ! Suc i)))"
proof (intro conjI ballI allI impI)
  fix t a b
  assume "t \<in> set FRAIS_TRANSACTIONS" "dans_tranche t a" "dans_tranche t b" "a \<le> b"
  then show "calculer_frais a \<le> calculer_frais b" by (rule monotone_dans_tranche)
next
  fix i h
  assume "Suc i < length FRAIS_TRANSACTIONS" "max_tranche (FRAIS_TRANSACTIONS ! i) = Finie h"
  then show "min_tranche (FRAIS_TRANSACTIONS ! Suc i) = h + 1"
    using frontieres_croissantes by blast
next
  fix i h
  assume "Suc i < length FRAIS_TRANSACTIONS" "max_tranche (FRAIS_TRANSACTIONS ! i) = Finie h"
  then show "calculer_frais h \<le> calculer_frais (min_tranche (FRAIS_TRANSACTIONS ! Suc i))"
    using frontieres_croissantes by metis
qed

theorem calculer_frais_monotone_witness:
  "FRAIS_TRANSACTIONS ! 1 \<in> set FRAIS_TRANSACTIONS \<and>
   dans_tranche (FRAIS_TRANSACTIONS ! 1) 150 \<and> dans_tranche (FRAIS_TRANSACTIONS ! 1) 400 \<and>
   calculer_frais 150 = 15 \<and> calculer_frais 400 = 40 \<and>
   calculer_frais 150 \<le> calculer_frais 400 \<and>
   Suc 1 < length FRAIS_TRANSACTIONS \<and> max_tranche (FRAIS_TRANSACTIONS ! 1) = Finie 500 \<and>
   min_tranche (FRAIS_TRANSACTIONS ! Suc 1) = 501 \<and>
   calculer_frais 500 = 50 \<and> calculer_frais 501 = 75 \<and>
   calculer_frais 500 \<le> calculer_frais (min_tranche (FRAIS_TRANSACTIONS ! Suc 1))"
proof -
  have m: "FRAIS_TRANSACTIONS ! 1 \<in> set FRAIS_TRANSACTIONS"
    by (simp add: FRAIS_TRANSACTIONS_def)
  have d: "dans_tranche (FRAIS_TRANSACTIONS ! 1) 150" "dans_tranche (FRAIS_TRANSACTIONS ! 1) 400"
    by (simp_all add: FRAIS_TRANSACTIONS_def dans_tranche_def)
  have l: "Suc 1 < length FRAIS_TRANSACTIONS" "max_tranche (FRAIS_TRANSACTIONS ! 1) = Finie 500"
    by (simp_all add: FRAIS_TRANSACTIONS_def)
  have v: "calculer_frais 150 = 15" "calculer_frais 400 = 40" "calculer_frais 500 = 50"
    "calculer_frais 501 = 75"
    by (simp_all add: calculer_frais_tranches tronquer_quotient_def)
  have "calculer_frais 150 \<le> calculer_frais 400"
    using calculer_frais_monotone [THEN conjunct1, rule_format, OF m d] by simp
  moreover have "min_tranche (FRAIS_TRANSACTIONS ! Suc 1) = 500 + 1 \<and>
      calculer_frais 500 \<le> calculer_frais (min_tranche (FRAIS_TRANSACTIONS ! Suc 1))"
    by (rule calculer_frais_monotone [THEN conjunct2, rule_format, OF l])
  ultimately show ?thesis using m d l v by simp
qed

section \<open>Lines of the accounts file\<close>

lemma trois_champs_split:
  "trois_champs l = Some (u, p, s) \<longleftrightarrow> split_virgule (strip l) = [u, p, s]"
  by (auto simp: trois_champs_def split: list.splits)

lemma cinq_champs_split:
  "cinq_champs l = Some (e, d, m, f, dh) \<longleftrightarrow> split_virgule (strip l) = [e, d, m, f, dh]"
  by (auto simp: cinq_champs_def split: list.splits)

lemma sans_virgule_dropWhile: "virgule \<notin> set u \<Longrightarrow> virgule \<notin> set (dropWhile espace u)"
  using set_dropWhileD by fastforce

lemma trois_champs_joindre3:
  assumes "virgule \<notin> set u" "virgule \<notin> set p" "virgule \<notin> set s" "s = [] \<or> \<not> espace (last s)"
  shows "trois_champs (joindre3 u p s) = Some (dropWhile espace u, p, s)"
proof -
  have "\<not> espace (last (joindre3 u p s))"
    using assms(4) by (auto simp: joindre3_def)
  then have "strip (joindre3 u p s) = dropWhile espace (joindre3 u p s)"
    by (intro strip_dernier) (simp_all add: joindre3_def)
  also have "\<dots> = dropWhile espace u @ virgule # p @ virgule # s"
    by (simp add: joindre3_def dropWhile_espace_append)
  finally have "split_virgule (strip (joindre3 u p s)) = [dropWhile espace u, p, s]"
    using assms(1-3)
    by (simp add: split_virgule_append split_virgule_sans sans_virgule_dropWhile)
  then show ?thesis by (simp add: trois_champs_split)
qed

lemma cinq_champs_joindre5:
  assumes "virgule \<notin> set e" "virgule \<notin> set d" "virgule \<notin> set m" "virgule \<notin> set f"
    "virgule \<notin> set dh" "dh = [] \<or> \<not> espace (last dh)"
  shows "cinq_champs (joindre5 e d m f dh) = Some (dropWhile espace e, d, m, f, dh)"
proof -
  have "\<not> espace (last (joindre5 e d m f dh))"
    using assms(6) by (auto simp: joindre5_def)
  then have "strip (joindre5 e d m f dh) = dropWhile espace (joindre5 e d m f dh)"
    by (intro strip_dernier) (simp_all add: joindre5_def)
  also have "\<dots> = dropWhile espace e @ virgule # d @ virgule # m @ virgule # f @ virgule # dh"
    by (simp add: joindre5_def dropWhile_espace_append)
  finally have "split_virgule (strip (joindre5 e d m f dh)) = [dropWhile espace e, d, m, f, dh]"
    using assms(1-5)
    by (simp add: split_virgule_append split_virgule_sans sans_virgule_dropWhile)
  then show ?thesis by (simp add: cinq_champs_split)
qed

lemma trois_champs_bords:
  assumes "trois_champs l = Some (u, p, s)"
  shows "strip l = joindre3 u p s" "virgule \<notin> set u" "virgule \<notin> set p" "virgule \<notin> set s"
    "u = [] \<or> \<not> espace (hd u)" "s = [] \<or> \<not> espace (last s)"
proof -
  from assms have sp: "split_virgule (strip l) = [u, p, s]" by (simp add: trois_champs_split)
  then show j: "strip l = joindre3 u p s" by (rule split_virgule_trois)
  show "virgule \<notin> set u" "virgule \<notin> set p" "virgule \<notin> set s"
    using champs_sans_virgule [of _ "strip l"] sp by simp_all
  from j have "strip l \<noteq> []" by (simp add: joindre3_def)
  then have b: "\<not> espace (hd (joindre3 u p s))" "\<not> espace (last (joindre3 u p s))"
    using strip_bords [of l] j by simp_all
  from b(1) show "u = [] \<or> \<not> espace (hd u)" by (cases u) (simp_all add: joindre3_def)
  from b(2) show "s = [] \<or> \<not> espace (last s)" by (cases s) (simp_all add: joindre3_def)
qed

lemma dropWhile_espace_tete: "u = [] \<or> \<not> espace (hd u) \<Longrightarrow> dropWhile espace u = u"
  by (cases u) auto

lemma trois_champs_reecrit:
  assumes "trois_champs l = Some (u, p, s)" "virgule \<notin> set s'" "s' = [] \<or> \<not> espace (last s')"
  shows "trois_champs (joindre3 u p s') = Some (u, p, s')"
  using trois_champs_joindre3 [of u p s'] trois_champs_bords [OF assms(1)] assms(2,3)
  by (simp add: dropWhile_espace_tete)

lemma ligne_utilisateur_Inr:
  assumes "ligne_utilisateur nom m l = Inr l'"
  obtains u p s where "trois_champs l = Some (u, p, s)" "u \<noteq> nom" "l' = strip l"
      "trois_champs l' = Some (u, p, s)"
    | p s n where "trois_champs l = Some (nom, p, s)" "py_int s = Some n"
      "imprimable (n + m)" "l' = joindre3 nom p (decimal (n + m))"
      "trois_champs l' = Some (nom, p, decimal (n + m))"
proof -
  from assms obtain u p s where t: "trois_champs l = Some (u, p, s)"
    by (auto simp: ligne_utilisateur_def split: option.splits)
  show ?thesis
  proof (cases "u = nom")
    case False
    with assms t have l': "l' = joindre3 u p s" by (simp add: ligne_utilisateur_def)
    moreover have "trois_champs (joindre3 u p s) = Some (u, p, s)"
      using trois_champs_reecrit [OF t] trois_champs_bords [OF t] by simp
    ultimately show ?thesis
      using that(1) [of u p s] t False trois_champs_bords(1) [OF t] by simp
  next
    case True
    with assms t obtain n s' where n: "py_int s = Some n" "py_str (n + m) = Some s'"
      "l' = joindre3 nom p s'"
      by (auto simp: ligne_utilisateur_def split: option.splits)
    from py_str_Some [OF n(2)] have s': "s' = decimal (n + m)" "imprimable (n + m)" by simp_all
    moreover have "trois_champs (joindre3 u p (decimal (n + m))) = Some (u, p, decimal (n + m))"
      using trois_champs_reecrit [OF t] decimal_propre by simp
    ultimately show ?thesis
      using that(2) [of p s n] t True n by simp
  qed
qed

section \<open>Rewriting the accounts file\<close>

lemma lignes_utilisateurs_Cons:
  assumes "lignes_utilisateurs nom m (l # ls) = Inr f'"
  obtains l' r where "f' = l' # r" "ligne_utilisateur nom m l = Inr l'"
    "lignes_utilisateurs nom m ls = Inr r"
  using assms by (auto split: sum.splits)

lemma existe_apres_maj:
  "lignes_utilisateurs nom m f = Inr f' \<Longrightarrow> utilisateur_existe v f' = utilisateur_existe v f"
proof (induction f arbitrary: f')
  case Nil
  then show ?case by simp
next
  case (Cons l ls)
  from Cons.prems obtain l' r where r: "f' = l' # r" "ligne_utilisateur nom m l = Inr l'"
    "lignes_utilisateurs nom m ls = Inr r"
    by (rule lignes_utilisateurs_Cons)
  from r(2) show ?case
    by (rule ligne_utilisateur_Inr) (simp_all add: r(1) Cons.IH [OF r(3)])
qed

lemma solde_autre_apres_maj:
  "lignes_utilisateurs nom m f = Inr f' \<Longrightarrow> v \<noteq> nom \<Longrightarrow>
   recuperer_solde v f' = recuperer_solde v f"
proof (induction f arbitrary: f')
  case Nil
  then show ?case by simp
next
  case (Cons l ls)
  from Cons.prems(1) obtain l' r where r: "f' = l' # r" "ligne_utilisateur nom m l = Inr l'"
    "lignes_utilisateurs nom m ls = Inr r"
    by (rule lignes_utilisateurs_Cons)
  note ih = Cons.IH [OF r(3) Cons.prems(2)]
  from Cons.prems(2) have ne: "nom \<noteq> v" by blast
  from r(2) show ?case
    by (rule ligne_utilisateur_Inr) (simp_all add: r(1) ih ne)
qed

lemma solde_apres_maj:
  "lignes_utilisateurs nom m f = Inr f' \<Longrightarrow> utilisateur_existe nom f = Inr True \<Longrightarrow>
   \<exists>b. recuperer_solde nom f = Inr b \<and> recuperer_solde nom f' = Inr (b + m)"
proof (induction f arbitrary: f')
  case Nil
  then show ?case by simp
next
  case (Cons l ls)
  from Cons.prems(1) obtain l' r where r: "f' = l' # r" "ligne_utilisateur nom m l = Inr l'"
    "lignes_utilisateurs nom m ls = Inr r"
    by (rule lignes_utilisateurs_Cons)
  from r(2) show ?case
  proof (rule ligne_utilisateur_Inr)
    fix u p s
    assume a: "trois_champs l = Some (u, p, s)" "u \<noteq> nom" "l' = strip l"
      "trois_champs l' = Some (u, p, s)"
    with Cons.prems(2) have "utilisateur_existe nom ls = Inr True" by simp
    from Cons.IH [OF r(3) this] show ?thesis using a r(1) by simp
  next
    fix p s n
    assume "trois_champs l = Some (nom, p, s)" "py_int s = Some n" "imprimable (n + m)"
      "l' = joindre3 nom p (decimal (n + m))" "trois_champs l' = Some (nom, p, decimal (n + m))"
    then show ?thesis using r(1) by (simp add: py_int_decimal)
  qed
qed

lemma sans_utilisateur_maj:
  "lignes_utilisateurs nom m f = Inr f' \<Longrightarrow> utilisateur_existe nom f = Inr False \<Longrightarrow>
   f' = map strip f"
proof (induction f arbitrary: f')
  case Nil
  then show ?case by simp
next
  case (Cons l ls)
  from Cons.prems(1) obtain l' r where r: "f' = l' # r" "ligne_utilisateur nom m l = Inr l'"
    "lignes_utilisateurs nom m ls = Inr r"
    by (rule lignes_utilisateurs_Cons)
  from r(2) show ?case
  proof (rule ligne_utilisateur_Inr)
    fix u p s
    assume a: "trois_champs l = Some (u, p, s)" "u \<noteq> nom" "l' = strip l"
      "trois_champs l' = Some (u, p, s)"
    with Cons.prems(2) have "utilisateur_existe nom ls = Inr False" by simp
    from Cons.IH [OF r(3) this] show ?thesis using a r(1) by simp
  next
    fix p s n
    assume "trois_champs l = Some (nom, p, s)"
    with Cons.prems(2) show ?thesis by simp
  qed
qed

lemma ajouter_au_solde_Inr:
  "ajouter_au_solde nom m f = (Inr ok, f') \<Longrightarrow> ok \<and> lignes_utilisateurs nom m f = Inr f'"
  by (auto simp: ajouter_au_solde_def split: sum.splits)

lemma debiter_crediter_succes:
  assumes "debiter_crediter nom dest c fr t st = (Inr True, st')"
  obtains f1 where "lignes_utilisateurs nom (- c - fr) (utilisateurs st) = Inr f1"
    "lignes_utilisateurs dest c f1 = Inr (utilisateurs st')"
    "enregistrer_transaction nom dest c fr t (transactions st) = Inr (transactions st')"
proof -
  from assms obtain ok1 f1 where 1: "ajouter_au_solde nom (- c - fr) (utilisateurs st) = (Inr ok1, f1)"
    by (auto simp: debiter_crediter_def split: prod.splits sum.splits)
  then have l1: "lignes_utilisateurs nom (- c - fr) (utilisateurs st) = Inr f1" and ok1: ok1
    using ajouter_au_solde_Inr by blast+
  from assms 1 ok1 obtain ok2 f2 where 2: "ajouter_au_solde dest c f1 = (Inr ok2, f2)"
    by (auto simp: debiter_crediter_def split: prod.splits sum.splits)
  then have l2: "lignes_utilisateurs dest c f1 = Inr f2" and ok2: ok2
    using ajouter_au_solde_Inr by blast+
  from assms 1 2 ok1 ok2 obtain j where
    "enregistrer_transaction nom dest c fr t (transactions st) = Inr j"
    "st' = \<lparr>utilisateurs = f2, transactions = j\<rparr>"
    by (auto simp: debiter_crediter_def split: sum.splits)
  with l1 l2 that show ?thesis by simp
qed

lemma envoyer_argent_succes:
  assumes "envoyer_argent nom dest montant t st = (Inr True, st')"
  obtains c b where "montant = Positif c" "dest \<noteq> nom"
    "recuperer_solde nom (utilisateurs st) = Inr b" "int c + calculer_frais (int c) \<le> b"
    "debiter_crediter nom dest (int c) (calculer_frais (int c)) t st = (Inr True, st')"
proof -
  from assms have d: "dest \<noteq> nom" "montant \<noteq> Illisible" "montant \<noteq> NonPositif"
    by (auto simp: envoyer_argent_def split: if_splits)
  with assms obtain b where b: "recuperer_solde nom (utilisateurs st) = Inr b"
    by (auto simp: envoyer_argent_def split: sum.splits)
  with assms d obtain c where c: "montant = Positif c"
    by (cases montant) (auto simp: envoyer_argent_def)
  with assms d b have "int c + calculer_frais (int c) \<le> b"
    "debiter_crediter nom dest (int c) (calculer_frais (int c)) t st = (Inr True, st')"
    by (auto simp: envoyer_argent_def Let_def split: if_splits sum.splits)
  with that c d b show ?thesis by blast
qed

lemma trois_champs_strip: "trois_champs (strip l) = trois_champs l"
  by (simp add: trois_champs_def strip_idem)

lemma ligne_bien_formee_maj:
  assumes "ligne_bien_formee l"
    and "nom_ligne l = Some nom \<longrightarrow>
         (case solde_ligne l of None \<Rightarrow> False | Some n \<Rightarrow> imprimable (n + m))"
  shows "\<exists>l'. ligne_utilisateur nom m l = Inr l' \<and> (nom_ligne l \<noteq> Some nom \<longrightarrow> l' = strip l)"
proof -
  from assms(1) obtain u p s n where t: "trois_champs l = Some (u, p, s)" "py_int s = Some n"
    by (auto simp: ligne_bien_formee_def solde_ligne_def split: option.splits)
  from trois_champs_bords(1) [OF t(1)] have j: "joindre3 u p s = strip l" by simp
  show ?thesis
  proof (cases "u = nom")
    case True
    with assms(2) t have "imprimable (n + m)" by (simp add: nom_ligne_def solde_ligne_def)
    with t True show ?thesis
      by (simp add: ligne_utilisateur_def nom_ligne_def py_str_def)
  next
    case False
    with t j show ?thesis by (simp add: ligne_utilisateur_def nom_ligne_def)
  qed
qed

lemma fichier_bien_forme_maj:
  "fichier_bien_forme f \<Longrightarrow> soldes_imprimables nom m f \<Longrightarrow>
   \<exists>f'. lignes_utilisateurs nom m f = Inr f' \<and> length f' = length f \<and>
        (\<forall>i < length f. nom_ligne (f ! i) \<noteq> Some nom \<longrightarrow> f' ! i = strip (f ! i))"
proof (induction f)
  case Nil
  then show ?case by simp
next
  case (Cons l ls)
  then have "ligne_bien_formee l" "fichier_bien_forme ls" "soldes_imprimables nom m ls"
    and "nom_ligne l = Some nom \<longrightarrow>
         (case solde_ligne l of None \<Rightarrow> False | Some n \<Rightarrow> imprimable (n + m))"
    by (simp_all add: fichier_bien_forme_def soldes_imprimables_def)
  with Cons.IH obtain r l' where r: "lignes_utilisateurs nom m ls = Inr r" "length r = length ls"
    "\<forall>i < length ls. nom_ligne (ls ! i) \<noteq> Some nom \<longrightarrow> r ! i = strip (ls ! i)"
    and l': "ligne_utilisateur nom m l = Inr l'" "nom_ligne l \<noteq> Some nom \<longrightarrow> l' = strip l"
    using ligne_bien_formee_maj [of l nom m] by blast
  have "\<forall>i < length (l # ls). nom_ligne ((l # ls) ! i) \<noteq> Some nom \<longrightarrow>
      (l' # r) ! i = strip ((l # ls) ! i)"
  proof (intro allI impI)
    fix i
    assume "i < length (l # ls)" "nom_ligne ((l # ls) ! i) \<noteq> Some nom"
    then show "(l' # r) ! i = strip ((l # ls) ! i)"
      using r(3) l'(2) by (cases i) auto
  qed
  with r l' show ?case by simp
qed

lemma plus_grand_que: "0 \<le> x \<Longrightarrow> x \<le> \<bar>5 + x\<bar>" for x :: int
  by linarith

lemma montant_enorme_non_imprimable: "\<not> imprimable (5 + montant_enorme)"
proof -
  have "(0::int) \<le> 10 ^ 4300" by (rule zero_le_power) simp
  then have "10 ^ 4300 \<le> \<bar>5 + montant_enorme\<bar>"
    unfolding montant_enorme_def by (rule plus_grand_que)
  moreover have "MAX_STR_DIGITS \<le> 4300" by (simp add: MAX_STR_DIGITS_def)
  ultimately show ?thesis by (rule non_imprimable_grand)
qed

text \<open>The definitions unfolded to run the model on the example state.\<close>

lemmas evaluation =
  strip_def espace_def trois_champs_def cinq_champs_def joindre3_def joindre5_def
  py_int_def espace_entier_def py_str_def imprimable_def MAX_STR_DIGITS_def decimal_def
  entier_litteral_def chiffre_def valeur_chiffre_def
  chiffres_de.simps chiffre_de_def LF_def CR_def virgule_def
  ligne_utilisateur_def ajouter_au_solde_def enregistrer_transaction_def ajouter_ligne_def
  strftime_def deux_chiffres_def envoyer_argent_def debiter_crediter_def Let_def
  calculer_frais_tranches tronquer_quotient_def
  instant_exemple_def hachage_exemple_def comptes_exemple_def etat_exemple_def

section \<open>Transfers\<close>

text \<open>
  C1. When \<^verbatim>\<open>envoyer_argent\<close> returns \<^verbatim>\<open>True\<close> for a positive amount of \<open>c\<close> cents, and
  the sender and the receiver both have a record in the accounts file, the two names
  differ, the balance read for the sender afterwards is its balance before minus \<open>c\<close>
  minus \<open>calculer_frais c\<close>, and the balance read for the receiver is its balance before
  plus \<open>c\<close>.
\<close>

theorem transfert_soldes:
  assumes "envoyer_argent nom dest (Positif c) t st = (Inr True, st')"
    and "utilisateur_existe nom (utilisateurs st) = Inr True"
    and "utilisateur_existe dest (utilisateurs st) = Inr True"
  shows "\<exists>solde_exp solde_dest.
           nom \<noteq> dest \<and>
           recuperer_solde nom (utilisateurs st) = Inr solde_exp \<and>
           recuperer_solde dest (utilisateurs st) = Inr solde_dest \<and>
           recuperer_solde nom (utilisateurs st') = Inr (solde_exp - int c - calculer_frais (int c)) \<and>
           recuperer_solde dest (utilisateurs st') = Inr (solde_dest + int c)"
proof -
  let ?fr = "calculer_frais (int c)"
  from assms(1) obtain c' b where s: "Positif c = Positif c'" "dest \<noteq> nom"
    "debiter_crediter nom dest (int c') (calculer_frais (int c')) t st = (Inr True, st')"
    by (rule envoyer_argent_succes)
  then have "debiter_crediter nom dest (int c) ?fr t st = (Inr True, st')" by simp
  then obtain f1 where f1: "lignes_utilisateurs nom (- int c - ?fr) (utilisateurs st) = Inr f1"
    and f2: "lignes_utilisateurs dest (int c) f1 = Inr (utilisateurs st')"
    by (rule debiter_crediter_succes)
  from solde_apres_maj [OF f1 assms(2)] obtain be where
    be: "recuperer_solde nom (utilisateurs st) = Inr be" "recuperer_solde nom f1 = Inr (be + (- int c - ?fr))"
    by blast
  have "utilisateur_existe dest f1 = Inr True"
    using existe_apres_maj [OF f1] assms(3) by simp
  from solde_apres_maj [OF f2 this] obtain bd where
    bd: "recuperer_solde dest f1 = Inr bd" "recuperer_solde dest (utilisateurs st') = Inr (bd + int c)"
    by blast
  have "recuperer_solde dest (utilisateurs st) = Inr bd"
    using solde_autre_apres_maj [OF f1, of dest] s(2) bd(1) by simp
  moreover have "recuperer_solde nom (utilisateurs st') = Inr (be - int c - ?fr)"
    using solde_autre_apres_maj [OF f2, of nom] s(2) be(2) by simp
  ultimately show ?thesis using be(1) bd(2) s(2) by auto
qed

theorem transfert_soldes_witness:
  "envoyer_argent ''alice'' ''bob'' (Positif 1000) instant_exemple etat_exemple =
   (Inr True,
    \<lparr>utilisateurs =
       [''alice,'' @ hachage_exemple @ '',98850'', ''bob,'' @ hachage_exemple @ '',101000''],
     transactions = [''alice,bob,1000,150,2024-03-09 14:05:00'']\<rparr>) \<and>
   utilisateur_existe ''alice'' (utilisateurs etat_exemple) = Inr True \<and>
   utilisateur_existe ''bob'' (utilisateurs etat_exemple) = Inr True \<and>
   recuperer_solde ''alice'' (utilisateurs etat_exemple) = Inr 100000 \<and>
   recuperer_solde ''bob'' (utilisateurs etat_exemple) = Inr 100000 \<and>
   calculer_frais 1000 = 150 \<and>
   recuperer_solde ''alice''
     [''alice,'' @ hachage_exemple @ '',98850'', ''bob,'' @ hachage_exemple @ '',101000''] =
     Inr (100000 - 1000 - 150) \<and>
   recuperer_solde ''bob''
     [''alice,'' @ hachage_exemple @ '',98850'', ''bob,'' @ hachage_exemple @ '',101000''] =
     Inr (100000 + 1000)"
proof -
  let ?st' = "\<lparr>utilisateurs =
       [''alice,'' @ hachage_exemple @ '',98850'', ''bob,'' @ hachage_exemple @ '',101000''],
     transactions = [''alice,bob,1000,150,2024-03-09 14:05:00'']\<rparr>"
  have e: "envoyer_argent ''alice'' ''bob'' (Positif 1000) instant_exemple etat_exemple =
      (Inr True, ?st')"
    by (simp add: evaluation)
  have a: "utilisateur_existe ''alice'' (utilisateurs etat_exemple) = Inr True"
    and b: "utilisateur_existe ''bob'' (utilisateurs etat_exemple) = Inr True"
    by (simp_all add: evaluation)
  have s: "recuperer_solde ''alice'' (utilisateurs etat_exemple) = Inr 100000"
    "recuperer_solde ''bob'' (utilisateurs etat_exemple) = Inr 100000"
    "calculer_frais 1000 = 150"
    by (simp_all add: evaluation)
  from transfert_soldes [OF e a b] s
  have "recuperer_solde ''alice'' (utilisateurs ?st') = Inr (100000 - 1000 - 150)"
    "recuperer_solde ''bob'' (utilisateurs ?st') = Inr (100000 + 1000)"
    by auto
  with e a b s show ?thesis by simp
qed

text \<open>
  C3. The claim wants a transfer to a name without a record to fail. In the code the
  balance of the receiver is read and dropped, and \<^verbatim>\<open>ajouter_au_solde\<close> on a missing
  name rewrites the file and returns \<^verbatim>\<open>True\<close>: sent to \<open>ghost\<close>, 10 dollars and their
  fee leave the account of \<open>alice\<close>, nobody is credited, the transaction is logged and
  the function returns \<^verbatim>\<open>True\<close>. No record is created for \<open>ghost\<close>.
\<close>

theorem envoyer_argent_destinataire_inconnu:
  "utilisateur_existe ''ghost'' (utilisateurs etat_exemple) = Inr False \<and>
   envoyer_argent ''alice'' ''ghost'' (Positif 1000) instant_exemple etat_exemple =
   (Inr True,
    \<lparr>utilisateurs =
       [''alice,'' @ hachage_exemple @ '',98850'', ''bob,'' @ hachage_exemple @ '',100000''],
     transactions = [''alice,ghost,1000,150,2024-03-09 14:05:00'']\<rparr>)"
  by (simp add: evaluation)

text \<open>
  C4. When the balance read for the sender is below the amount plus its fee,
  \<^verbatim>\<open>envoyer_argent\<close> returns \<^verbatim>\<open>False\<close> and both files are as before.
\<close>

theorem fonds_insuffisants:
  "recuperer_solde nom (utilisateurs st) = Inr solde \<Longrightarrow>
   solde < int c + calculer_frais (int c) \<Longrightarrow>
   envoyer_argent nom destinataire (Positif c) maintenant st = (Inr False, st)"
  by (simp add: envoyer_argent_def Let_def)

theorem fonds_insuffisants_witness:
  "recuperer_solde ''alice'' (utilisateurs etat_exemple) = Inr 100000 \<and>
   100000 < int 90000 + calculer_frais (int 90000) \<and>
   envoyer_argent ''alice'' ''bob'' (Positif 90000) instant_exemple etat_exemple =
   (Inr False, etat_exemple)"
proof -
  have s: "recuperer_solde ''alice'' (utilisateurs etat_exemple) = Inr 100000"
    by (simp add: evaluation)
  have i: "100000 < int 90000 + calculer_frais (int 90000)"
    by (simp add: evaluation)
  from fonds_insuffisants [OF s i] s i show ?thesis by simp
qed

lemma ligne_cinq_enorme: "ligne_utilisateur ''bob'' montant_enorme ligne_cinq = Inl ValueError"
proof -
  have t: "trois_champs ligne_cinq =
      Some (''bob'', ''5e884898da28047151d0e56f8dfc6292773603d0d6aabbdd62a11ef721d1542d'', ''5'')"
    by (simp add: ligne_cinq_def trois_champs_def strip_def espace_def virgule_def
        hachage_exemple_def)
  have i: "py_int ''5'' = Some 5"
    by (simp add: py_int_def espace_entier_def entier_litteral_def chiffre_def valeur_chiffre_def
        MAX_STR_DIGITS_def)
  have s: "py_str (5 + montant_enorme) = None"
    by (simp add: py_str_def montant_enorme_non_imprimable)
  show ?thesis by (simp add: ligne_utilisateur_def t i s)
qed

text \<open>
  C10, as stated, fails twice on files the program writes. A line registered with a
  space in front of the name has three fields and an integer balance, yet the rewrite
  strips it: for a name without a record the file written differs from the file read.
  And \<^verbatim>\<open>str\<close> refuses an integer of more than 4300 digits: with such an amount the
  function raises \<^verbatim>\<open>ValueError\<close> instead of returning \<^verbatim>\<open>True\<close>.
\<close>

theorem ajouter_au_solde_counterexample:
  "fichier_bien_forme comptes_espace \<and>
   utilisateur_existe ''alice'' comptes_espace = Inr False \<and>
   ajouter_au_solde ''alice'' 5 comptes_espace =
     (Inr True, [''bob,'' @ hachage_exemple @ '',100000'']) \<and>
   comptes_espace \<noteq> [''bob,'' @ hachage_exemple @ '',100000''] \<and>
   fichier_bien_forme comptes_cinq \<and>
   ajouter_au_solde ''bob'' montant_enorme comptes_cinq = (Inl ValueError, comptes_cinq)"
proof -
  have "fichier_bien_forme comptes_espace"
    by (simp add: fichier_bien_forme_def ligne_bien_formee_def solde_ligne_def comptes_espace_def
        evaluation)
  moreover have "utilisateur_existe ''alice'' comptes_espace = Inr False"
    by (simp add: comptes_espace_def evaluation)
  moreover have "ajouter_au_solde ''alice'' 5 comptes_espace =
      (Inr True, [''bob,'' @ hachage_exemple @ '',100000''])"
    by (simp add: comptes_espace_def evaluation)
  moreover have "comptes_espace \<noteq> [''bob,'' @ hachage_exemple @ '',100000'']"
    by (simp add: comptes_espace_def)
  moreover have "fichier_bien_forme comptes_cinq"
    by (simp add: fichier_bien_forme_def ligne_bien_formee_def solde_ligne_def comptes_cinq_def
        ligne_cinq_def evaluation)
  moreover have "ajouter_au_solde ''bob'' montant_enorme comptes_cinq =
      (Inl ValueError, comptes_cinq)"
    by (simp add: ajouter_au_solde_def comptes_cinq_def ligne_cinq_enorme)
  ultimately show ?thesis by blast
qed

text \<open>
  C10, amended. On an accounts file whose lines each hold three fields with an integer
  balance, and when every new balance of the name has at most 4300 digits,
  \<^verbatim>\<open>ajouter_au_solde\<close> returns \<^verbatim>\<open>True\<close> and writes as many lines as it read; every line
  whose record has another name is written back at the same place, stripped of the
  whitespace around it, and reads as the same record; and when no record has the name,
  the file written is the file read with every line stripped.
\<close>

theorem ajouter_au_solde_cadre:
  assumes "fichier_bien_forme f" "soldes_imprimables nom m f"
  shows "\<exists>f'. ajouter_au_solde nom m f = (Inr True, f') \<and> length f' = length f \<and>
           (\<forall>i < length f. nom_ligne (f ! i) \<noteq> Some nom \<longrightarrow>
              f' ! i = strip (f ! i) \<and> trois_champs (f' ! i) = trois_champs (f ! i)) \<and>
           (utilisateur_existe nom f = Inr False \<longrightarrow> f' = map strip f)"
proof -
  from fichier_bien_forme_maj [OF assms] obtain f' where
    f': "lignes_utilisateurs nom m f = Inr f'" "length f' = length f"
    "\<forall>i < length f. nom_ligne (f ! i) \<noteq> Some nom \<longrightarrow> f' ! i = strip (f ! i)"
    by blast
  have "utilisateur_existe nom f = Inr False \<longrightarrow> f' = map strip f"
    using sans_utilisateur_maj [OF f'(1)] by simp
  with f' show ?thesis by (simp add: ajouter_au_solde_def trois_champs_strip)
qed

theorem ajouter_au_solde_cadre_witness:
  "fichier_bien_forme comptes_melanges \<and>
   soldes_imprimables ''alice'' 5 comptes_melanges \<and>
   soldes_imprimables ''carol'' 5 comptes_melanges \<and>
   nom_ligne (comptes_melanges ! 0) \<noteq> Some ''alice'' \<and>
   utilisateur_existe ''carol'' comptes_melanges = Inr False \<and>
   (\<exists>f'. ajouter_au_solde ''alice'' 5 comptes_melanges = (Inr True, f') \<and>
         length f' = 2 \<and> f' ! 0 = strip (comptes_melanges ! 0) \<and>
         trois_champs (f' ! 0) = trois_champs (comptes_melanges ! 0)) \<and>
   ajouter_au_solde ''carol'' 5 comptes_melanges = (Inr True, map strip comptes_melanges)"
proof -
  have w: "fichier_bien_forme comptes_melanges"
    by (simp add: fichier_bien_forme_def ligne_bien_formee_def solde_ligne_def
        comptes_melanges_def evaluation)
  have a: "soldes_imprimables ''alice'' 5 comptes_melanges"
    by (simp add: soldes_imprimables_def nom_ligne_def solde_ligne_def comptes_melanges_def
        evaluation)
  have k: "soldes_imprimables ''carol'' 5 comptes_melanges"
    by (simp add: soldes_imprimables_def nom_ligne_def solde_ligne_def comptes_melanges_def
        evaluation)
  have n: "nom_ligne (comptes_melanges ! 0) \<noteq> Some ''alice''"
    by (simp add: nom_ligne_def comptes_melanges_def evaluation)
  have c: "utilisateur_existe ''carol'' comptes_melanges = Inr False"
    by (simp add: comptes_melanges_def evaluation)
  have l: "length comptes_melanges = 2" by (simp add: comptes_melanges_def)
  from ajouter_au_solde_cadre [OF w a] n l
  have 1: "\<exists>f'. ajouter_au_solde ''alice'' 5 comptes_melanges = (Inr True, f') \<and>
         length f' = 2 \<and> f' ! 0 = strip (comptes_melanges ! 0) \<and>
         trois_champs (f' ! 0) = trois_champs (comptes_melanges ! 0)"
    by (auto simp: trois_champs_strip)
  from ajouter_au_solde_cadre [OF w k] c
  have 2: "ajouter_au_solde ''carol'' 5 comptes_melanges = (Inr True, map strip comptes_melanges)"
    by auto
  from w a k n c 1 2 show ?thesis by blast
qed

section \<open>Formatting amounts\<close>

text \<open>
  C9. The claim wants the dollars, a decimal point and the two digits of the cents.
  \<^verbatim>\<open>formater_argent\<close> formats the whole dollars only: 1234.56 dollars come out as
  \<open>1,234.00 $\<close>, the cents replaced by zeros, and 1000.00 dollars as \<open>1,000 $\<close>, with
  no decimals at all.
\<close>

theorem formater_argent_exemples:
  "formater_argent 123456 = ''1,234.00 $'' \<and> formater_argent 100000 = ''1,000 $''"
  by (simp add: formater_argent_def milliers_def evaluation)

section \<open>The transaction log\<close>

lemma lignes_texte_une:
  "LF \<notin> set s \<Longrightarrow> CR \<notin> set s \<Longrightarrow> lignes_texte cur (s @ [LF]) = [cur @ s]"
proof (induction s arbitrary: cur)
  case Nil
  then show ?case by simp
next
  case (Cons c cs)
  then obtain d ds where d: "cs @ [LF] = d # ds" by (cases "cs @ [LF]") auto
  from Cons.prems have "c \<noteq> LF" "c \<noteq> CR" by auto
  then have "lignes_texte cur ((c # cs) @ [LF]) = lignes_texte (cur @ [c]) (cs @ [LF])"
    using d by simp
  with Cons show ?case by simp
qed

lemma ajouter_ligne_une:
  "LF \<notin> set l \<Longrightarrow> CR \<notin> set l \<Longrightarrow> ajouter_ligne l f = f @ [l]"
  by (simp add: ajouter_ligne_def lignes_texte_une)

lemma deux_chiffres_chiffres: "list_all chiffre (deux_chiffres n)"
  by (simp add: deux_chiffres_def chiffre_de_props)

lemma strftime_caracteres:
  "c \<in> set (strftime t) \<Longrightarrow> chiffre c \<or> c = CHR ''-'' \<or> c = CHR '' '' \<or> c = CHR '':''"
  using chiffres_de_chiffres [of "annee t"] deux_chiffres_chiffres
  by (auto simp: strftime_def list_all_iff)

lemma strftime_propre:
  "virgule \<notin> set (strftime t)" "LF \<notin> set (strftime t)" "CR \<notin> set (strftime t)"
  "strftime t \<noteq> []" "\<not> espace (last (strftime t))"
proof -
  have n: "chiffre c \<or> c = CHR ''-'' \<or> c = CHR '' '' \<or> c = CHR '':'' \<Longrightarrow>
      c \<noteq> virgule \<and> c \<noteq> LF \<and> c \<noteq> CR" for c
    by (auto simp: chiffre_def virgule_def LF_def CR_def)
  show "virgule \<notin> set (strftime t)" "LF \<notin> set (strftime t)" "CR \<notin> set (strftime t)"
    using strftime_caracteres n by blast+
  show "strftime t \<noteq> []" by (simp add: strftime_def)
  have "last (strftime t) = chiffre_de (seconde t mod 10)"
    by (simp add: strftime_def deux_chiffres_def)
  then show "\<not> espace (last (strftime t))" by (simp add: chiffre_de_props)
qed

lemma sans_separateur_joindre5:
  assumes "sans_separateur e" "sans_separateur d"
  shows "LF \<notin> set (joindre5 e d (decimal m) (decimal f) (strftime t))"
    "CR \<notin> set (joindre5 e d (decimal m) (decimal f) (strftime t))"
  using assms decimal_propre strftime_propre
  by (auto simp: joindre5_def sans_separateur_def virgule_def LF_def CR_def)

lemma enregistrer_transaction_propre:
  assumes "sans_separateur e" "sans_separateur d" "imprimable m" "imprimable f"
  shows "enregistrer_transaction e d m f t j =
         Inr (j @ [joindre5 e d (decimal m) (decimal f) (strftime t)])"
  using sans_separateur_joindre5 [OF assms(1,2)] assms(3,4)
  by (simp add: enregistrer_transaction_def py_str_def ajouter_ligne_une)


lemma cinq_champs_transaction:
  assumes "virgule \<notin> set e" "virgule \<notin> set d"
  shows "cinq_champs (joindre5 e d (decimal m) (decimal f) (strftime t)) =
         Some (dropWhile espace e, d, decimal m, decimal f, strftime t)"
  using assms decimal_propre strftime_propre
  by (intro cinq_champs_joindre5) simp_all








section \<open>Registration\<close>

lemma chiffres_hex_caracteres:
  "c \<in> set (chiffres_hex k d) \<Longrightarrow> c \<in> set ''0123456789abcdef''"
proof (induction k arbitrary: d)
  case 0
  then show ?case by simp
next
  case (Suc k)
  have m: "''0123456789abcdef'' ! (d mod 16) \<in> set ''0123456789abcdef''"
    by (rule nth_mem) simp
  from Suc.prems have "c \<in> set (chiffres_hex k (d div 16)) \<or>
      c = ''0123456789abcdef'' ! (d mod 16)"
    by (simp only: chiffres_hex.simps set_append set_simps Un_iff insert_iff empty_iff) blast
  then show ?case
  proof
    assume "c \<in> set (chiffres_hex k (d div 16))"
    then show ?thesis by (rule Suc.IH)
  next
    assume "c = ''0123456789abcdef'' ! (d mod 16)"
    with m show ?thesis by (simp only:)
  qed
qed

lemma hacher_propre:
  "virgule \<notin> set (hacher_mot_de_passe sha m)" "LF \<notin> set (hacher_mot_de_passe sha m)"
  "CR \<notin> set (hacher_mot_de_passe sha m)" "ascii (hacher_mot_de_passe sha m)"
proof -
  have h: "c \<in> set (hacher_mot_de_passe sha m) \<Longrightarrow> c \<in> set ''0123456789abcdef''" for c
    using chiffres_hex_caracteres by (simp add: hacher_mot_de_passe_def hexdigest_def)
  have n: "c \<in> set ''0123456789abcdef'' \<Longrightarrow> c \<noteq> virgule \<and> c \<noteq> LF \<and> c \<noteq> CR \<and> \<not> digit7 c" for c
    by (auto simp: virgule_def LF_def CR_def)
  show "virgule \<notin> set (hacher_mot_de_passe sha m)" "LF \<notin> set (hacher_mot_de_passe sha m)"
    "CR \<notin> set (hacher_mot_de_passe sha m)"
    using h n by blast+
  show "ascii (hacher_mot_de_passe sha m)"
    using h n by (auto simp: ascii_def list_all_iff)
qed

lemma ligne_compte:
  assumes "virgule \<notin> set nom"
  shows "trois_champs (joindre3 nom (hacher_mot_de_passe sha m) (decimal n)) =
         Some (dropWhile espace nom, hacher_mot_de_passe sha m, decimal n)"
  using assms hacher_propre decimal_propre by (intro trois_champs_joindre3) simp_all

lemma ajouter_ligne_compte:
  assumes "LF \<notin> set nom" "CR \<notin> set nom"
  shows "ajouter_ligne (joindre3 nom (hacher_mot_de_passe sha m) (decimal n)) f =
         f @ [joindre3 nom (hacher_mot_de_passe sha m) (decimal n)]"
proof -
  have "LF \<noteq> virgule" "CR \<noteq> virgule" by (simp_all add: LF_def CR_def virgule_def)
  then show ?thesis
    using assms hacher_propre [of sha m] decimal_propre [of n]
    by (intro ajouter_ligne_une) (auto simp: joindre3_def)
qed

lemma enregistrer_utilisateur_succes:
  assumes "enregistrer_utilisateur sha nom mdp t st = (Inr True, st')"
  shows "nom \<noteq> []" "mdp \<noteq> []" "utilisateur_existe nom (utilisateurs st) = Inr False"
    "utilisateurs st' =
       ajouter_ligne (joindre3 nom (hacher_mot_de_passe sha mdp) (decimal SOLDE_INITIAL))
         (utilisateurs st)"
    "enregistrer_transaction NOM_UTILISATEUR_ADMIN nom SOLDE_INITIAL 0 t (transactions st) =
       Inr (transactions st')"
  using assms
  by (auto simp: enregistrer_utilisateur_def Let_def dest: py_str_Some
      split: if_splits sum.splits bool.splits option.splits)

lemma recuperer_solde_append:
  "utilisateur_existe nom f = Inr False \<Longrightarrow> recuperer_solde nom (f @ g) = recuperer_solde nom g"
  by (induction f) (auto split: option.splits if_splits)

lemma nom_propre_dropWhile: "nom_propre nom \<Longrightarrow> dropWhile espace nom = nom"
  by (simp add: nom_propre_def dropWhile_espace_tete)

lemma sans_separateur_admin: "sans_separateur NOM_UTILISATEUR_ADMIN"
  by (simp add: sans_separateur_def NOM_UTILISATEUR_ADMIN_def virgule_def LF_def CR_def)

lemma dropWhile_admin: "dropWhile espace NOM_UTILISATEUR_ADMIN = NOM_UTILISATEUR_ADMIN"
  by (simp add: NOM_UTILISATEUR_ADMIN_def espace_def)

text \<open>The rules that run a session line by line, the digest left as it is.\<close>

lemmas deroulement =
  derouler.simps enregistrer_utilisateur_def utilisateur_existe.simps recuperer_solde.simps
  connecter_utilisateur.simps envoyer_argent_def debiter_crediter_def ajouter_au_solde_def
  lignes_utilisateurs.simps ligne_utilisateur_def
  ligne_compte ajouter_ligne_compte enregistrer_transaction_propre cinq_champs_transaction
  hacher_propre py_int_decimal_court py_str_court imprimable_court sans_separateur_def
  calculer_frais_tranches tronquer_quotient_def SOLDE_INITIAL_def NOM_UTILISATEUR_ADMIN_def
  etat_vide_def espace_def virgule_def LF_def CR_def Let_def compte_def ecriture_def

text \<open>
  C6, as stated, fails twice. Registered with a space in front, \<open>bob\<close> gets a line that
  is read back under the name without the space, so the balance read for the name as
  typed is 0. And the log may already hold a funding record for a name that registers:
  in \<open>suite_fantome\<close> a user who registered the name of the administrative account sends
  the initial balance to \<open>ghost\<close> before \<open>ghost\<close> registers, so two records from that
  name to \<open>ghost\<close> for the initial balance exist after the registration.
\<close>

theorem inscription_counterexample:
  "fst (enregistrer_utilisateur sha_exemple '' bob'' ''pw'' instant_exemple etat_vide) = Inr True \<and>
   recuperer_solde '' bob''
     (utilisateurs (snd (enregistrer_utilisateur sha_exemple '' bob'' ''pw'' instant_exemple
        etat_vide))) = Inr 0 \<and>
   SOLDE_INITIAL = 100000 \<and>
   nom_propre ''ghost'' \<and>
   map_option (\<lambda>st. financements ''ghost'' (transactions st))
     (derouler sha_exemple suite_fantome etat_vide) =
   Some [ecriture NOM_UTILISATEUR_ADMIN ''ghost'' 100000 25000,
         ecriture NOM_UTILISATEUR_ADMIN ''ghost'' 100000 0]"
  by (simp add: deroulement suite_fantome_def nom_propre_def financements_def financement_def)

text \<open>
  C6, amended. When a registration succeeds for a name without comma or line end that
  does not start with whitespace, the balance read for the new account is the initial
  balance, and the registration appends one line to the transaction log, which reads
  back as sent by the administrative account to the new account for the initial
  balance with no fee: the log holds one more such record than before.
\<close>

theorem inscription_solde_initial:
  assumes "nom_propre nom" "enregistrer_utilisateur sha nom mdp t st = (Inr True, st')"
  shows "recuperer_solde nom (utilisateurs st') = Inr SOLDE_INITIAL \<and>
         transactions st' =
           transactions st @
           [joindre5 NOM_UTILISATEUR_ADMIN nom (decimal SOLDE_INITIAL) (decimal 0) (strftime t)] \<and>
         cinq_champs
           (joindre5 NOM_UTILISATEUR_ADMIN nom (decimal SOLDE_INITIAL) (decimal 0) (strftime t)) =
           Some (NOM_UTILISATEUR_ADMIN, nom, decimal SOLDE_INITIAL, decimal 0, strftime t) \<and>
         length (financements nom (transactions st')) =
           length (financements nom (transactions st)) + 1"
proof -
  let ?l = "joindre3 nom (hacher_mot_de_passe sha mdp) (decimal SOLDE_INITIAL)"
  let ?j = "joindre5 NOM_UTILISATEUR_ADMIN nom (decimal SOLDE_INITIAL) (decimal 0) (strftime t)"
  note s = enregistrer_utilisateur_succes [OF assms(2)]
  from assms(1) have p: "virgule \<notin> set nom" "LF \<notin> set nom" "CR \<notin> set nom"
    by (simp_all add: nom_propre_def)
  have i: "imprimable SOLDE_INITIAL" "imprimable 0"
    by (simp_all add: SOLDE_INITIAL_def imprimable_court)
  have u: "utilisateurs st' = utilisateurs st @ [?l]"
    using s(4) p by (simp add: ajouter_ligne_compte)
  have "trois_champs ?l = Some (nom, hacher_mot_de_passe sha mdp, decimal SOLDE_INITIAL)"
    using ligne_compte [OF p(1)] nom_propre_dropWhile [OF assms(1)] by simp
  then have 1: "recuperer_solde nom (utilisateurs st') = Inr SOLDE_INITIAL"
    using u s(3) i by (simp add: recuperer_solde_append py_int_decimal)
  have "sans_separateur nom" using p by (simp add: sans_separateur_def)
  then have 2: "transactions st' = transactions st @ [?j]"
    using s(5) sans_separateur_admin i by (simp add: enregistrer_transaction_propre)
  have 3: "cinq_champs ?j = Some (NOM_UTILISATEUR_ADMIN, nom, decimal SOLDE_INITIAL, decimal 0, strftime t)"
    using cinq_champs_transaction [of NOM_UTILISATEUR_ADMIN nom] p(1) sans_separateur_admin
    by (simp add: sans_separateur_def dropWhile_admin)
  then have "financement nom ?j" using i by (simp add: financement_def py_int_decimal)
  then have 4: "length (financements nom (transactions st')) =
      length (financements nom (transactions st)) + 1"
    using 2 by (simp add: financements_def)
  from 1 2 3 4 show ?thesis by blast
qed

theorem inscription_solde_initial_witness:
  "nom_propre ''alice'' \<and>
   enregistrer_utilisateur sha_exemple ''alice'' ''pw'' instant_exemple etat_vide =
     (Inr True,
      \<lparr>utilisateurs = [compte ''alice'' 100000],
       transactions = [ecriture NOM_UTILISATEUR_ADMIN ''alice'' 100000 0]\<rparr>) \<and>
   recuperer_solde ''alice'' [compte ''alice'' 100000] = Inr SOLDE_INITIAL \<and>
   length (financements ''alice'' [ecriture NOM_UTILISATEUR_ADMIN ''alice'' 100000 0]) = 1"
proof -
  let ?st' = "\<lparr>utilisateurs = [compte ''alice'' 100000],
       transactions = [ecriture NOM_UTILISATEUR_ADMIN ''alice'' 100000 0]\<rparr>"
  have p: "nom_propre ''alice''"
    by (simp add: nom_propre_def espace_def virgule_def LF_def CR_def)
  have e: "enregistrer_utilisateur sha_exemple ''alice'' ''pw'' instant_exemple etat_vide =
      (Inr True, ?st')"
    by (simp add: deroulement)
  from inscription_solde_initial [OF p e]
  have "recuperer_solde ''alice'' (utilisateurs ?st') = Inr SOLDE_INITIAL"
    "length (financements ''alice'' (transactions ?st')) =
       length (financements ''alice'' (transactions etat_vide)) + 1"
    by blast+
  then show ?thesis using p e by (simp add: etat_vide_def financements_def)
qed

section \<open>Balances stay non-negative\<close>

lemma existe_False_noms:
  "utilisateur_existe nom f = Inr False \<Longrightarrow> Some nom \<notin> set (map nom_ligne f)"
  by (induction f) (auto simp: nom_ligne_def split: option.splits if_splits)

lemma maj_noms:
  "lignes_utilisateurs nom m f = Inr f' \<Longrightarrow> map nom_ligne f' = map nom_ligne f"
proof (induction f arbitrary: f')
  case Nil
  then show ?case by simp
next
  case (Cons l ls)
  from Cons.prems obtain l' r where r: "f' = l' # r" "ligne_utilisateur nom m l = Inr l'"
    "lignes_utilisateurs nom m ls = Inr r"
    by (rule lignes_utilisateurs_Cons)
  from r(2) have "nom_ligne l' = nom_ligne l"
    by (rule ligne_utilisateur_Inr) (simp_all add: nom_ligne_def)
  with Cons.IH [OF r(3)] r(1) show ?case by simp
qed

lemma maj_soldes:
  "lignes_utilisateurs nom m f = Inr f' \<Longrightarrow>
   \<forall>l \<in> set f. \<exists>n. solde_ligne l = Some n \<and> 0 \<le> n \<Longrightarrow>
   \<forall>l \<in> set f. nom_ligne l = Some nom \<longrightarrow> (\<exists>n. solde_ligne l = Some n \<and> 0 \<le> n + m) \<Longrightarrow>
   \<forall>l \<in> set f'. \<exists>n. solde_ligne l = Some n \<and> 0 \<le> n"
proof (induction f arbitrary: f')
  case Nil
  then show ?case by simp
next
  case (Cons l ls)
  from Cons.prems(1) obtain l' r where r: "f' = l' # r" "ligne_utilisateur nom m l = Inr l'"
    "lignes_utilisateurs nom m ls = Inr r"
    by (rule lignes_utilisateurs_Cons)
  from Cons.prems(2,3) have t: "\<forall>l \<in> set r. \<exists>n. solde_ligne l = Some n \<and> 0 \<le> n"
    by (intro Cons.IH [OF r(3)]) simp_all
  from r(2) have "\<exists>n. solde_ligne l' = Some n \<and> 0 \<le> n"
  proof (rule ligne_utilisateur_Inr)
    fix u p s
    assume "trois_champs l = Some (u, p, s)" "trois_champs l' = Some (u, p, s)"
    then have "solde_ligne l' = solde_ligne l" by (simp add: solde_ligne_def)
    with Cons.prems(2) show ?thesis by simp
  next
    fix p s n
    assume a: "trois_champs l = Some (nom, p, s)" "py_int s = Some n"
      "trois_champs l' = Some (nom, p, decimal (n + m))" "imprimable (n + m)"
    then have "nom_ligne l = Some nom" "solde_ligne l = Some n"
      by (simp_all add: nom_ligne_def solde_ligne_def)
    with Cons.prems(3) have "0 \<le> n + m" by simp
    with a(3,4) show ?thesis by (simp add: solde_ligne_def py_int_decimal)
  qed
  with t r(1) show ?case by simp
qed

lemma solde_unique:
  "distinct (map nom_ligne f) \<Longrightarrow> recuperer_solde nom f = Inr b \<Longrightarrow> l \<in> set f \<Longrightarrow>
   nom_ligne l = Some nom \<Longrightarrow> solde_ligne l = Some b"
proof (induction f)
  case Nil
  then show ?case by simp
next
  case (Cons a as)
  from Cons.prems(2) obtain u p s where t: "trois_champs a = Some (u, p, s)"
    by (auto split: option.splits)
  show ?case
  proof (cases "u = nom")
    case True
    with t have na: "nom_ligne a = Some nom" by (simp add: nom_ligne_def)
    with Cons.prems(1) have "Some nom \<notin> nom_ligne ` set as" by simp
    with Cons.prems(3,4) have "l = a" by force
    with Cons.prems(2) t True show ?thesis
      by (auto simp: solde_ligne_def split: option.splits)
  next
    case False
    with t Cons.prems(4) have "l \<noteq> a" by (auto simp: nom_ligne_def)
    with Cons.prems(3) have "l \<in> set as" by simp
    moreover from Cons.prems(2) t False have "recuperer_solde nom as = Inr b" by simp
    ultimately show ?thesis using Cons.IH Cons.prems(1,4) by simp
  qed
qed

lemma sains_inscription:
  assumes "comptes_sains (utilisateurs st)" "nom_propre nom"
    "enregistrer_utilisateur sha nom mdp t st = (Inr True, st')"
  shows "comptes_sains (utilisateurs st')"
proof -
  let ?l = "joindre3 nom (hacher_mot_de_passe sha mdp) (decimal SOLDE_INITIAL)"
  note s = enregistrer_utilisateur_succes [OF assms(3)]
  from assms(2) have p: "virgule \<notin> set nom" "LF \<notin> set nom" "CR \<notin> set nom"
    by (simp_all add: nom_propre_def)
  have u: "utilisateurs st' = utilisateurs st @ [?l]"
    using s(4) p by (simp add: ajouter_ligne_compte)
  have t: "trois_champs ?l = Some (nom, hacher_mot_de_passe sha mdp, decimal SOLDE_INITIAL)"
    using ligne_compte [OF p(1)] nom_propre_dropWhile [OF assms(2)] by simp
  then have "nom_ligne ?l = Some nom" "solde_ligne ?l = Some SOLDE_INITIAL"
    by (simp_all add: nom_ligne_def solde_ligne_def py_int_decimal_court SOLDE_INITIAL_def)
  moreover have "0 \<le> SOLDE_INITIAL" by (simp add: SOLDE_INITIAL_def)
  moreover have "Some nom \<notin> set (map nom_ligne (utilisateurs st))"
    using s(3) by (rule existe_False_noms)
  ultimately show ?thesis
    using assms(1) u by (auto simp: comptes_sains_def)
qed

lemma sains_transfert:
  assumes "comptes_sains (utilisateurs st)"
    "envoyer_argent nom dest montant t st = (Inr True, st')"
  shows "comptes_sains (utilisateurs st')"
proof -
  from assms(2) obtain c b where c: "recuperer_solde nom (utilisateurs st) = Inr b"
    "int c + calculer_frais (int c) \<le> b"
    "debiter_crediter nom dest (int c) (calculer_frais (int c)) t st = (Inr True, st')"
    by (rule envoyer_argent_succes)
  let ?fr = "calculer_frais (int c)"
  from c(3) obtain f1 where f1: "lignes_utilisateurs nom (- int c - ?fr) (utilisateurs st) = Inr f1"
    and f2: "lignes_utilisateurs dest (int c) f1 = Inr (utilisateurs st')"
    by (rule debiter_crediter_succes)
  from assms(1) have d: "distinct (map nom_ligne (utilisateurs st))"
    and n: "\<forall>l \<in> set (utilisateurs st). \<exists>n. solde_ligne l = Some n \<and> 0 \<le> n"
    by (simp_all add: comptes_sains_def)
  have "\<forall>l \<in> set (utilisateurs st). nom_ligne l = Some nom \<longrightarrow>
      (\<exists>n. solde_ligne l = Some n \<and> 0 \<le> n + (- int c - ?fr))"
  proof (intro ballI impI)
    fix l
    assume "l \<in> set (utilisateurs st)" "nom_ligne l = Some nom"
    then have "solde_ligne l = Some b" using solde_unique [OF d c(1)] by simp
    with c(2) show "\<exists>n. solde_ligne l = Some n \<and> 0 \<le> n + (- int c - ?fr)" by simp
  qed
  with f1 n have n1: "\<forall>l \<in> set f1. \<exists>n. solde_ligne l = Some n \<and> 0 \<le> n"
    by (rule maj_soldes)
  then have "\<forall>l \<in> set f1. nom_ligne l = Some dest \<longrightarrow>
      (\<exists>n. solde_ligne l = Some n \<and> 0 \<le> n + int c)"
    by fastforce
  with f2 n1 have "\<forall>l \<in> set (utilisateurs st'). \<exists>n. solde_ligne l = Some n \<and> 0 \<le> n"
    by (rule maj_soldes)
  moreover have "map nom_ligne (utilisateurs st') = map nom_ligne (utilisateurs st)"
    using maj_noms [OF f1] maj_noms [OF f2] by simp
  ultimately show ?thesis using d by (simp add: comptes_sains_def)
qed

lemma sains_derouler:
  "comptes_sains (utilisateurs st) \<Longrightarrow> inscriptions_propres suite \<Longrightarrow>
   derouler sha suite st = Some st' \<Longrightarrow> comptes_sains (utilisateurs st')"
proof (induction sha suite st rule: derouler.induct)
  case (1 sha st)
  then show ?case by simp
next
  case (2 sha nom mdp t suite st)
  from "2.prems"(3) obtain st1 where
    e: "enregistrer_utilisateur sha nom mdp t st = (Inr True, st1)"
    and d: "derouler sha suite st1 = Some st'"
    by (auto split: prod.splits sum.splits bool.splits)
  from "2.prems"(2) have p: "nom_propre nom" "inscriptions_propres suite" by simp_all
  from "2.prems"(1) p(1) e have "comptes_sains (utilisateurs st1)"
    by (rule sains_inscription)
  with "2.IH" e d p(2) show ?case by simp
next
  case (3 sha nom mdp destinataire montant t suite st)
  from "3.prems"(3) obtain connecte st1 where
    k: "connecter_utilisateur sha nom mdp (utilisateurs st) = Inr (Some connecte)"
    and e: "envoyer_argent connecte destinataire montant t st = (Inr True, st1)"
    and d: "derouler sha suite st1 = Some st'"
    by (auto split: prod.splits sum.splits bool.splits option.splits)
  from "3.prems"(1) e have "comptes_sains (utilisateurs st1)"
    by (rule sains_transfert)
  moreover from "3.prems"(2) have "inscriptions_propres suite" by simp
  ultimately show ?case using "3.IH" k e d by simp
qed

lemma hexdigest_deux:
  "hexdigest 2 = ''0000000000000000000000000000000000000000000000000000000000000002''"
  by code_simp

lemma compte_negatif_texte:
  "compte ''bob'' (- 25000) =
   ''bob,0000000000000000000000000000000000000000000000000000000000000002,-25000''"
  by (simp add: compte_def joindre3_def decimal_def chiffres_de.simps chiffre_de_def
      hacher_mot_de_passe_def sha_exemple_def virgule_def hexdigest_deux [unfolded numeral_2_eq_2])

text \<open>
  C5, as stated, fails. In \<open>suite_doublon\<close> the name \<open>bob\<close> is registered, receives 500
  dollars, and is registered again with a space in front: the second line is read back
  under the name \<open>bob\<close> too, with the initial balance. A transfer of 1000 dollars by
  \<open>bob\<close> is checked against the first line (1500 dollars) and debited from both, which
  leaves the second at -250 dollars. Nor is the administrative name kept out of the
  accounts file: it registers like any other name.
\<close>

theorem soldes_counterexample:
  "map_option utilisateurs (derouler sha_exemple suite_doublon etat_vide) =
   Some [compte ''bob'' 25000, compte ''alice'' 137500, compte ''bob'' (- 25000)] \<and>
   solde_ligne (compte ''bob'' (- 25000)) = Some (- 25000) \<and>
   compte ''bob'' (- 25000) =
     ''bob,0000000000000000000000000000000000000000000000000000000000000002,-25000'' \<and>
   map_option utilisateurs
     (derouler sha_exemple [Inscription NOM_UTILISATEUR_ADMIN ''pw'' instant_exemple] etat_vide) =
   Some [compte NOM_UTILISATEUR_ADMIN 100000] \<and>
   nom_ligne (compte NOM_UTILISATEUR_ADMIN 100000) = Some NOM_UTILISATEUR_ADMIN"
proof -
  have "map_option utilisateurs (derouler sha_exemple suite_doublon etat_vide) =
      Some [compte ''bob'' 25000, compte ''alice'' 137500, compte ''bob'' (- 25000)]"
    by (simp add: deroulement suite_doublon_def)
  moreover have "solde_ligne (compte ''bob'' (- 25000)) = Some (- 25000)"
    by (simp add: deroulement solde_ligne_def)
  moreover note compte_negatif_texte
  moreover have "map_option utilisateurs
      (derouler sha_exemple [Inscription NOM_UTILISATEUR_ADMIN ''pw'' instant_exemple] etat_vide) =
      Some [compte NOM_UTILISATEUR_ADMIN 100000]"
    by (simp add: deroulement)
  moreover have "nom_ligne (compte NOM_UTILISATEUR_ADMIN 100000) = Some NOM_UTILISATEUR_ADMIN"
    by (simp add: deroulement nom_ligne_def)
  ultimately show ?thesis by blast
qed

text \<open>
  C5, amended. In every state reached from the two empty files by registrations and
  transfers that all succeed, the registered names holding no comma and no line end and
  not starting with whitespace, every line of the accounts file holds a record whose
  balance is not negative.
\<close>

theorem soldes_non_negatifs:
  assumes "inscriptions_propres suite" "derouler sha suite etat_vide = Some st"
  shows "\<forall>l \<in> set (utilisateurs st). \<exists>n. solde_ligne l = Some n \<and> 0 \<le> n"
proof -
  have "comptes_sains (utilisateurs etat_vide)"
    by (simp add: comptes_sains_def etat_vide_def)
  from sains_derouler [OF this assms] show ?thesis
    by (simp add: comptes_sains_def)
qed

theorem soldes_non_negatifs_witness:
  "inscriptions_propres suite_simple \<and>
   derouler sha_exemple suite_simple etat_vide =
     Some \<lparr>utilisateurs = [compte ''bob'' 150000, compte ''alice'' 37500],
           transactions =
             [ecriture NOM_UTILISATEUR_ADMIN ''bob'' 100000 0,
              ecriture NOM_UTILISATEUR_ADMIN ''alice'' 100000 0,
              ecriture ''alice'' ''bob'' 50000 12500]\<rparr> \<and>
   (\<exists>n. solde_ligne (compte ''bob'' 150000) = Some n \<and> 0 \<le> n) \<and>
   (\<exists>n. solde_ligne (compte ''alice'' 37500) = Some n \<and> 0 \<le> n)"
proof -
  let ?st = "\<lparr>utilisateurs = [compte ''bob'' 150000, compte ''alice'' 37500],
           transactions =
             [ecriture NOM_UTILISATEUR_ADMIN ''bob'' 100000 0,
              ecriture NOM_UTILISATEUR_ADMIN ''alice'' 100000 0,
              ecriture ''alice'' ''bob'' 50000 12500]\<rparr>"
  have p: "inscriptions_propres suite_simple"
    by (simp add: suite_simple_def nom_propre_def espace_def virgule_def LF_def CR_def)
  have d: "derouler sha_exemple suite_simple etat_vide = Some ?st"
    by (simp add: deroulement suite_simple_def)
  from soldes_non_negatifs [OF p d]
  have "\<exists>n. solde_ligne (compte ''bob'' 150000) = Some n \<and> 0 \<le> n"
    "\<exists>n. solde_ligne (compte ''alice'' 37500) = Some n \<and> 0 \<le> n"
    by simp_all
  with p d show ?thesis by blast
qed

end
